theory Spec2Isabelle
  imports Complex_Main
begin

section \<open>Arrays\<close>

text \<open>
  A numpy float array of one dimension is a list of reals, one of two dimensions a list of
  rows. Arithmetic is exact real arithmetic: rounding, overflow to infinity and NaN are
  outside this model, and every statement below is about the exact values.
\<close>

type_synonym vec = "real list"
type_synonym mat = "real list list"

datatype error = AssertionError | IndexError | ValueError | TypeError | LinAlgError
  | SolverError | AttributeError | NotANumber | Unmodelled

definition ncols :: "mat \<Rightarrow> nat" where
  "ncols m = (case m of [] \<Rightarrow> 0 | r # _ \<Rightarrow> length r)"

definition is_shape :: "nat \<Rightarrow> nat \<Rightarrow> mat \<Rightarrow> bool" where
  "is_shape r c m \<longleftrightarrow> length m = r \<and> list_all (\<lambda>row. length row = c) m"

definition is_square :: "mat \<Rightarrow> bool" where
  "is_square m \<longleftrightarrow> is_shape (length m) (length m) m"

text \<open>\<^verbatim>\<open>m.T\<close> of a two-dimensional array.\<close>

definition mat_T :: "mat \<Rightarrow> mat" where
  "mat_T m = map (\<lambda>j. map (\<lambda>i. m ! i ! j) [0..<length m]) [0..<ncols m]"

text \<open>
  \<^verbatim>\<open>mat += mat.T; mat /= 2\<close> on a square array, the transpose being read as it was
  before the update.
\<close>

definition symmetrize :: "mat \<Rightarrow> mat" where
  "symmetrize m =
     map (\<lambda>i. map (\<lambda>j. (m ! i ! j + m ! j ! i) / 2) [0..<length m]) [0..<length m]"

text \<open>\<^verbatim>\<open>np.diag(v)\<close> and \<^verbatim>\<open>np.maximum(v, c)\<close>.\<close>

definition diag :: "vec \<Rightarrow> mat" where
  "diag v = map (\<lambda>i. map (\<lambda>j. if i = j then v ! i else 0) [0..<length v]) [0..<length v]"

definition maximum :: "vec \<Rightarrow> real \<Rightarrow> vec" where
  "maximum v c = map (\<lambda>x. max x c) v"

text \<open>\<^verbatim>\<open>np.dot(a, b)\<close>: a shape mismatch raises ValueError.\<close>

definition dot :: "mat \<Rightarrow> mat \<Rightarrow> error + mat" where
  "dot a b =
     (if ncols a \<noteq> length b then Inl ValueError
      else Inr (map (\<lambda>i. map (\<lambda>j. \<Sum>k\<leftarrow>[0..<length b]. a ! i ! k * b ! k ! j)
                              [0..<ncols b]) [0..<length a]))"

text \<open>\<^verbatim>\<open>v.min()\<close>: raises ValueError on an empty array.\<close>

fun amin :: "vec \<Rightarrow> error + real" where
  "amin [] = Inl ValueError"
| "amin (x # xs) = Inr (fold min xs x)"

text \<open>\<^verbatim>\<open>m[np.ix_(rows, cols)]\<close> for index lists that are in range.\<close>

definition ix :: "mat \<Rightarrow> nat list \<Rightarrow> nat list \<Rightarrow> mat" where
  "ix m rows cols = map (\<lambda>i. map (\<lambda>j. m ! i ! j) cols) rows"

section \<open>PSD projection and the Gaussian kernel\<close>

text \<open>
  \<^verbatim>\<open>scipy.linalg.eigh\<close> is a library routine and is a parameter \<open>eigh\<close> here: it returns
  the eigenvalues and a matrix whose columns are eigenvectors, or raises. The \<open>destroy\<close>
  flag of the source only decides whether the caller's buffer is reused; the returned
  value does not depend on it, and the model returns the value. A non-square argument
  makes \<^verbatim>\<open>mat += mat.T\<close> raise ValueError.
\<close>

definition project_psd :: "(mat \<Rightarrow> error + vec \<times> mat) \<Rightarrow> mat \<Rightarrow> real \<Rightarrow> error + mat" where
  "project_psd eigh mat min_eig =
     (if \<not> is_square mat then Inl ValueError
      else let m = symmetrize mat in
        case eigh m of
          Inl e \<Rightarrow> Inl e
        | Inr (vals, vecs) \<Rightarrow>
            (case amin vals of
               Inl e \<Rightarrow> Inl e
             | Inr lo \<Rightarrow>
                 if lo < min_eig then
                   (case dot (diag (maximum vals min_eig)) (mat_T vecs) of
                      Inl e \<Rightarrow> Inl e
                    | Inr dv \<Rightarrow>
                        (case dot vecs dv of
                           Inl e \<Rightarrow> Inl e
                         | Inr r \<Rightarrow> if is_square r then Inr (symmetrize r) else Inl ValueError))
                 else Inr m))"

text \<open>
  Lines 90 to 93 of \<^verbatim>\<open>make_km\<close>, and lines 385 to 388 of \<^verbatim>\<open>predict\<close>: the elementwise
  Gaussian \<^verbatim>\<open>km = divs / sigma; km **= 2; km /= -2; np.exp(km, km)\<close>. (At \<open>sigma = 0\<close>
  numpy produces infinities and NaN; that input is outside the model.)
\<close>

definition gaussian :: "mat \<Rightarrow> real \<Rightarrow> mat" where
  "gaussian divs sigma = map (map (\<lambda>d. exp ((d / sigma)\<^sup>2 / (- 2)))) divs"

definition make_km :: "(mat \<Rightarrow> error + vec \<times> mat) \<Rightarrow> mat \<Rightarrow> real \<Rightarrow> error + mat" where
  "make_km eigh divs sigma = project_psd eigh (gaussian divs sigma) 0"

definition split_km :: "mat \<Rightarrow> nat list \<Rightarrow> nat list \<Rightarrow> mat \<times> mat" where
  "split_km km train_idx test_idx = (ix km train_idx train_idx, ix km test_idx train_idx)"

section \<open>Parameter tuning\<close>

text \<open>
  \<^verbatim>\<open>np.median(divs[divs > 0])\<close>: the positive entries in row-major order, then the median.
  On an empty selection numpy returns NaN; the model reports that input as \<open>NotANumber\<close>
  (the source would go on with NaN bandwidths).
\<close>

definition positive_entries :: "mat \<Rightarrow> vec" where
  "positive_entries divs = filter (\<lambda>d. 0 < d) (concat divs)"

definition median :: "vec \<Rightarrow> error + real" where
  "median xs =
     (let s = sort xs; n = length s in
      if n = 0 then Inl NotANumber
      else if odd n then Inr (s ! (n div 2))
      else Inr ((s ! (n div 2 - 1) + s ! (n div 2)) / 2))"

text \<open>
  The value handed over as \<^verbatim>\<open>sigma_vals\<close>. \<^verbatim>\<open>np.asarray\<close> builds a new array from a tuple
  or a list, and returns a float array itself, without a copy. The in-place product
  \<^verbatim>\<open>sigma_vals *= ...\<close> therefore writes into the caller's object in the second case.
\<close>

datatype seq_arg = PySeq "real list" | NdArray "real list"

fun seq_values :: "seq_arg \<Rightarrow> real list" where
  "seq_values (PySeq xs) = xs"
| "seq_values (NdArray xs) = xs"

text \<open>The caller's object after its \<^verbatim>\<open>np.asarray\<close> image has been overwritten by \<open>ys\<close>.\<close>

fun written_back :: "seq_arg \<Rightarrow> real list \<Rightarrow> seq_arg" where
  "written_back (PySeq xs) ys = PySeq xs"
| "written_back (NdArray xs) ys = NdArray ys"

text \<open>
  \<^verbatim>\<open>sklearn.cross_validation.KFold(n, n_folds, shuffle=True)\<close>, a library class: it
  rejects \<open>n_folds \<le> 1\<close> and \<open>n_folds > n\<close>, cuts the shuffled index array \<open>idxs\<close> into
  \<open>n_folds\<close> consecutive chunks, the first \<open>n mod n_folds\<close> of them one longer, and yields
  for each chunk the indices outside it and the indices inside it, both in increasing
  order. The shuffled array is an argument of the model.
\<close>

definition fold_sizes :: "nat \<Rightarrow> nat \<Rightarrow> nat list" where
  "fold_sizes n k = map (\<lambda>f. n div k + (if f < n mod k then 1 else 0)) [0..<k]"

fun chunks :: "nat list \<Rightarrow> 'a list \<Rightarrow> 'a list list" where
  "chunks [] xs = []"
| "chunks (s # ss) xs = take s xs # chunks ss (drop s xs)"

definition KFold :: "nat \<Rightarrow> nat \<Rightarrow> nat list \<Rightarrow> error + (nat list \<times> nat list) list" where
  "KFold n n_folds idxs =
     (if n_folds \<le> 1 then Inl ValueError
      else if n_folds > n then Inl ValueError
      else Inr (map (\<lambda>c. (filter (\<lambda>i. i \<notin> set c) [0..<n], filter (\<lambda>i. i \<in> set c) [0..<n]))
                    (chunks (fold_sizes n n_folds) idxs)))"

text \<open>The keyword dictionary handed to \<^verbatim>\<open>svm.SVC\<close> (the kernel is always precomputed).\<close>

record svm_params =
  svc_cache_size :: real
  svc_class_weight_auto :: bool
  svc_tol :: real
  svc_max_iter :: int
  svc_shrinking :: bool

type_synonym bag = "real list list"

text \<open>The settings that reach the divergence estimator.\<close>

record div_conf =
  dc_div_func :: string
  dc_K :: nat
  dc_n_proc :: "nat option"
  dc_fix_mode :: string
  dc_tail :: real
  dc_min_dist :: "real option"

text \<open>
  The collaborators that are not part of this file of the repository:
  \<^item> \<open>ext_eigh\<close>: \<^verbatim>\<open>scipy.linalg.eigh\<close>;
  \<^item> \<open>ext_svc_fit C params km y\<close>: \<^verbatim>\<open>svm.SVC(C=C, **params).fit(km, y)\<close>, which may raise, and
    \<open>ext_svc_predict\<close>: the fitted classifier's \<^verbatim>\<open>predict\<close>, one label per row;
  \<^item> \<open>ext_get_pool n_proc\<close>: what the pool of \<^verbatim>\<open>mp_utils.get_pool(n_proc)\<close> does with the
    outcome of one submitted task: \<open>Inl e\<close> when \<open>e\<close> is raised in the submitting process,
    \<open>Inr (Some v)\<close> when the callback is called with \<open>v\<close>, \<open>Inr None\<close> when the callback
    is not called;
  \<^item> \<open>ext_get_divs\<close> and \<open>ext_get_divs_cache\<close>: the divergence estimator of \<^verbatim>\<open>get_divs\<close>,
    with a mask, and its cached variant, with a cache file name;
  \<^item> \<open>ext_FIX_MODE_DEFAULT\<close>: the constant \<^verbatim>\<open>FIX_MODE_DEFAULT\<close> of \<^verbatim>\<open>get_divs\<close>.
\<close>

record 'm ext =
  ext_eigh :: "mat \<Rightarrow> error + vec \<times> mat"
  ext_svc_fit :: "real \<Rightarrow> svm_params \<Rightarrow> mat \<Rightarrow> int list \<Rightarrow> error + 'm"
  ext_svc_predict :: "'m \<Rightarrow> mat \<Rightarrow> int list"
  ext_get_pool :: "nat option \<Rightarrow> error + real \<Rightarrow> error + real option"
  ext_get_divs :: "bag list \<Rightarrow> div_conf \<Rightarrow> bool list list \<Rightarrow> error + mat"
  ext_get_divs_cache :: "bag list \<Rightarrow> div_conf \<Rightarrow> string option \<Rightarrow> error + mat"
  ext_FIX_MODE_DEFAULT :: string

text \<open>\<^verbatim>\<open>xs[idx]\<close> for an index array that is in range.\<close>

definition take_idx :: "'a list \<Rightarrow> nat list \<Rightarrow> 'a list" where
  "take_idx xs idx = map (\<lambda>i. xs ! i) idx"

text \<open>
  \<^verbatim>\<open>np.mean(preds == labels)\<close> for two vectors of one length (on empty vectors numpy
  returns NaN; the callers below never pass an empty label vector).
\<close>

definition accuracy :: "int list \<Rightarrow> int list \<Rightarrow> real" where
  "accuracy preds labels =
     real (length (filter (\<lambda>(p, l). p = l) (zip preds labels))) / real (length labels)"

definition try_params ::
  "'m ext \<Rightarrow> mat \<Rightarrow> int list \<Rightarrow> nat list \<Rightarrow> nat list \<Rightarrow> real \<Rightarrow> svm_params \<Rightarrow> error + real" where
  "try_params ext km labels train_idx test_idx C params =
     (let (train_km, test_km) = split_km km train_idx test_idx in
      case ext_svc_fit ext C params train_km (take_idx labels train_idx) of
        Inl e \<Rightarrow> Inl e
      | Inr clf \<Rightarrow>
          Inr (accuracy (ext_svc_predict ext clf test_km) (take_idx labels test_idx)))"

text \<open>Running a list of steps up to the first one that raises.\<close>

fun sequence :: "(error + 'a) list \<Rightarrow> error + 'a list" where
  "sequence [] = Inr []"
| "sequence (x # xs) =
     (case x of
        Inl e \<Rightarrow> Inl e
      | Inr v \<Rightarrow> (case sequence xs of Inl e \<Rightarrow> Inl e | Inr vs \<Rightarrow> Inr (v # vs)))"

text \<open>
  The score table starts as NaN in every cell (\<open>None\<close>); \<^verbatim>\<open>scores.mean(axis=-1)\<close> is NaN
  where a cell is, and \<^verbatim>\<open>argmax\<close> returns the first NaN position if there is one, else
  the first position of the maximum; it raises ValueError on an empty array.
\<close>

definition nanmean :: "real option list \<Rightarrow> real option" where
  "nanmean xs =
     (if None \<in> set xs then None else Some (sum_list (map the xs) / real (length xs)))"

definition first_index :: "('a \<Rightarrow> bool) \<Rightarrow> 'a list \<Rightarrow> nat" where
  "first_index P xs = length (takeWhile (\<lambda>x. \<not> P x) xs)"

definition argmax :: "real option list \<Rightarrow> error + nat" where
  "argmax xs =
     (case xs of
        [] \<Rightarrow> Inl ValueError
      | y # ys \<Rightarrow>
          if None \<in> set xs then Inr (first_index (\<lambda>x. x = None) xs)
          else Inr (first_index (\<lambda>x. x = Some (fold max (map the ys) (the y))) xs))"

text \<open>
  \<^verbatim>\<open>tune_params\<close>. \<open>idxs\<close> is the shuffled index array of its \<^verbatim>\<open>KFold\<close>; \<open>params\<close> is the
  dictionary \<^verbatim>\<open>svm_params\<close> the source builds from its keyword arguments. The result
  carries, beside the returned pair, the caller's \<^verbatim>\<open>sigma_vals\<close> object as the call leaves
  it. The kernels are looked up by position, where the source looks them up by the value
  of sigma; equal values have equal kernels.
\<close>

definition tune_params ::
  "'m ext \<Rightarrow> nat list \<Rightarrow> mat \<Rightarrow> int list \<Rightarrow> nat \<Rightarrow> nat option \<Rightarrow> real list \<Rightarrow> seq_arg \<Rightarrow> bool
   \<Rightarrow> svm_params \<Rightarrow> error + ((real \<times> real) \<times> seq_arg)" where
  "tune_params ext idxs divs labels num_folds nproc Cvals svals scale params =
     (case (if scale
            then (case median (positive_entries divs) of
                    Inl e \<Rightarrow> Inl e
                  | Inr med \<Rightarrow> Inr (map (\<lambda>s. s * med) (seq_values svals)))
            else Inr (seq_values svals)) of
        Inl e \<Rightarrow> Inl e
      | Inr sigmas \<Rightarrow>
          let caller = (if scale then written_back svals sigmas else svals) in
          if length Cvals \<le> 1 \<and> length sigmas \<le> 1 then
            (if Cvals = [] \<or> sigmas = [] then Inl IndexError
             else Inr ((Cvals ! 0, sigmas ! 0), caller))
          else if \<not> is_square divs then Inl AssertionError
          else if length labels \<noteq> length divs then Inl AssertionError
          else
            (case sequence (map (make_km (ext_eigh ext) divs) sigmas) of
               Inl e \<Rightarrow> Inl e
             | Inr sigma_kms \<Rightarrow>
                 (case KFold (length divs) num_folds idxs of
                    Inl e \<Rightarrow> Inl e
                  | Inr folds \<Rightarrow>
                      (case sequence (map (\<lambda>C.
                              sequence (map (\<lambda>km.
                                sequence (map (\<lambda>(train, test).
                                    ext_get_pool ext nproc
                                      (try_params ext km labels train test C params))
                                  folds))
                                sigma_kms))
                              Cvals) of
                         Inl e \<Rightarrow> Inl e
                       | Inr scores \<Rightarrow>
                           (case argmax (concat (map (map nanmean) scores)) of
                              Inl e \<Rightarrow> Inl e
                            | Inr best \<Rightarrow>
                                let best_C = best div length sigmas;
                                    best_sigma = best mod length sigmas
                                in Inr ((sigmas ! best_sigma, Cvals ! best_C), caller))))))"

section \<open>The estimator and the transductive routine\<close>

text \<open>
  What stands where a sequence of bags is expected: a list, a tuple, or a single bag (a
  two-dimensional array). \<^verbatim>\<open>len\<close> of an array is its number of rows, and indexing it
  yields its rows; the model keeps such a row as a bag of one point. \<^verbatim>\<open>+\<close> concatenates
  two lists or two tuples and raises TypeError on a list and a tuple; with an array
  operand it is numpy's broadcasting sum, which the model reports as \<open>Unmodelled\<close>.
\<close>

datatype bags = PyList "bag list" | PyTuple "bag list" | OneBag bag

fun py_len :: "bags \<Rightarrow> nat" where
  "py_len (PyList bs) = length bs"
| "py_len (PyTuple bs) = length bs"
| "py_len (OneBag b) = length b"

fun py_items :: "bags \<Rightarrow> bag list" where
  "py_items (PyList bs) = bs"
| "py_items (PyTuple bs) = bs"
| "py_items (OneBag b) = map (\<lambda>r. [r]) b"

fun py_add :: "bags \<Rightarrow> bags \<Rightarrow> error + bag list" where
  "py_add (PyList a) (PyList b) = Inr (a @ b)"
| "py_add (PyTuple a) (PyTuple b) = Inr (a @ b)"
| "py_add (PyList a) (PyTuple b) = Inl TypeError"
| "py_add (PyTuple a) (PyList b) = Inl TypeError"
| "py_add (OneBag a) b = Inl Unmodelled"
| "py_add a (OneBag b) = Inl Unmodelled"

text \<open>
  The keyword options shared by the constructor of the estimator, \<^verbatim>\<open>transduct\<close> and
  \<^verbatim>\<open>crossvalidate\<close> (the logging options \<^verbatim>\<open>status_fn\<close> and \<^verbatim>\<open>progressbar\<close> are left out).
\<close>

record opts =
  div_func :: string
  K :: nat
  tuning_folds :: nat
  n_proc :: "nat option"
  C_vals :: "real list"
  sigma_vals :: seq_arg
  scale_sigma :: bool
  weight_classes :: bool
  cache_size :: real
  tuning_cache_size :: real
  svm_tol :: real
  tuning_svm_tol :: real
  svm_max_iter :: int
  tuning_svm_max_iter :: int
  svm_shrinking :: bool
  fix_mode :: string
  tail :: real
  min_dist :: "real option"

text \<open>
  The estimator object: \<open>params\<close> holds the attributes that \<^verbatim>\<open>__init__\<close> sets, and
  \<open>fit_train_bags\<close>, \<open>fit_sigma\<close>, \<open>fit_C\<close>, \<open>fit_svm\<close> are the attributes \<^verbatim>\<open>train_bags_\<close>,
  \<^verbatim>\<open>sigma_\<close>, \<^verbatim>\<open>C_\<close> and \<^verbatim>\<open>svm_\<close>, absent (\<open>None\<close>) until \<^verbatim>\<open>fit\<close> sets them.
\<close>

record 'm SupportDistributionMachine =
  params :: opts
  fit_train_bags :: "bag list option"
  fit_sigma :: "real option"
  fit_C :: "real option"
  fit_svm :: "'m option"

definition SDM_init :: "'m ext \<Rightarrow> opts \<Rightarrow> 'm SupportDistributionMachine" where
  "SDM_init ext args =
     \<lparr> params = args\<lparr>fix_mode := ext_FIX_MODE_DEFAULT ext\<rparr>,
       fit_train_bags = None, fit_sigma = None, fit_C = None, fit_svm = None \<rparr>"

definition tuning_svm_params :: "opts \<Rightarrow> svm_params" where
  "tuning_svm_params ops =
     \<lparr> svc_cache_size = tuning_cache_size ops, svc_class_weight_auto = weight_classes ops,
       svc_tol = tuning_svm_tol ops, svc_max_iter = tuning_svm_max_iter ops,
       svc_shrinking = svm_shrinking ops \<rparr>"

definition final_svm_params :: "opts \<Rightarrow> svm_params" where
  "final_svm_params ops =
     \<lparr> svc_cache_size = cache_size ops, svc_class_weight_auto = weight_classes ops,
       svc_tol = svm_tol ops, svc_max_iter = svm_max_iter ops,
       svc_shrinking = svm_shrinking ops \<rparr>"

definition div_conf_of :: "opts \<Rightarrow> div_conf" where
  "div_conf_of ops =
     \<lparr> dc_div_func = div_func ops, dc_K = K ops, dc_n_proc = n_proc ops,
       dc_fix_mode = fix_mode ops, dc_tail = tail ops, dc_min_dist = min_dist ops \<rparr>"

text \<open>
  \<^verbatim>\<open>np.squeeze\<close> turns a label vector of length one into a scalar array, whose shape is
  never \<^verbatim>\<open>(n,)\<close>; a longer or empty vector keeps its shape.
\<close>

definition squeezed_shape_is :: "int list \<Rightarrow> nat \<Rightarrow> bool" where
  "squeezed_shape_is y n \<longleftrightarrow> length y = n \<and> length y \<noteq> 1"

text \<open>
  \<^verbatim>\<open>fit\<close>. \<open>idxs\<close> is the shuffle of the tuning folds. The result is the estimator with its
  fitted attributes; its \<^verbatim>\<open>sigma_vals\<close> attribute is the object that \<^verbatim>\<open>tune_params\<close> was
  given, as that call leaves it.
\<close>

definition fit ::
  "'m ext \<Rightarrow> nat list \<Rightarrow> 'm SupportDistributionMachine \<Rightarrow> bags \<Rightarrow> int list \<Rightarrow> mat option
   \<Rightarrow> string option \<Rightarrow> error + 'm SupportDistributionMachine" where
  "fit ext idxs self X y divs divs_cache =
     (let n_bags = py_len X; p = params self in
      if \<not> squeezed_shape_is y n_bags then Inl AssertionError
      else if \<not> list_all (\<lambda>l. - 1 \<le> l) y then Inl AssertionError
      else
        let train_idx = filter (\<lambda>i. y ! i \<noteq> - 1) [0..<n_bags];
            train_y = take_idx y train_idx
        in
        if length train_y < 2 then Inl AssertionError
        else
          (case (case divs of
                   None \<Rightarrow> ext_get_divs_cache ext (py_items X) (div_conf_of p) divs_cache
                 | Some d \<Rightarrow> if is_shape n_bags n_bags d then Inr d else Inl AssertionError) of
             Inl e \<Rightarrow> Inl e
           | Inr d \<Rightarrow>
               (case tune_params ext idxs (ix d train_idx train_idx) train_y (tuning_folds p)
                       (n_proc p) (C_vals p) (sigma_vals p) (scale_sigma p)
                       (tuning_svm_params p) of
                  Inl e \<Rightarrow> Inl e
                | Inr ((sigma, C), sv) \<Rightarrow>
                    (case make_km (ext_eigh ext) d sigma of
                       Inl e \<Rightarrow> Inl e
                     | Inr km \<Rightarrow>
                         let train_km = ix km train_idx train_idx in
                         (case ext_svc_fit ext C (final_svm_params p) train_km train_y of
                            Inl e \<Rightarrow> Inl e
                          | Inr clf \<Rightarrow>
                              Inr (self\<lparr> params := p\<lparr>sigma_vals := sv\<rparr>,
                                         fit_train_bags := Some (take_idx (py_items X) train_idx),
                                         fit_sigma := Some sigma, fit_C := Some C,
                                         fit_svm := Some clf \<rparr>))))))"

text \<open>
  The mask of \<^verbatim>\<open>predict\<close> and line 379. A slice \<^verbatim>\<open>-n_test:\<close> starts at \<open>N - n_test\<close>, and at
  0 when \<open>n_test = 0\<close>; the scalar index \<^verbatim>\<open>-n_test\<close> of the second operand selects the one
  column at that position, a vector of length \<open>n_train\<close>, which is broadcast over the rows
  of the first operand.
\<close>

definition cross_mask :: "nat \<Rightarrow> nat \<Rightarrow> bool list list" where
  "cross_mask n_train n_test =
     (let N = n_train + n_test; s = (if n_test = 0 then 0 else N - n_test) in
      map (\<lambda>i. map (\<lambda>j. (i < n_train \<and> s \<le> j) \<or> (s \<le> i \<and> j < n_train)) [0..<N]) [0..<N])"

definition cross_divs :: "nat \<Rightarrow> nat \<Rightarrow> mat \<Rightarrow> mat" where
  "cross_divs n_train n_test divs =
     (let N = length divs; s = (if n_test = 0 then 0 else N - n_test) in
      map (\<lambda>i. map (\<lambda>j. (divs ! i ! j + divs ! j ! s) / 2) [0..<n_train]) [s..<N])"

text \<open>
  \<^verbatim>\<open>predict\<close>. The estimator returns a square array over the training bags followed by the
  new bags; another shape is reported as \<open>Unmodelled\<close>. The labels are integers, so the
  assertion on the predictions holds.
\<close>

definition predict ::
  "'m ext \<Rightarrow> 'm SupportDistributionMachine \<Rightarrow> bags \<Rightarrow> mat option \<Rightarrow> error + int list" where
  "predict ext self data divs =
     (case (fit_train_bags self, fit_sigma self, fit_svm self) of
        (Some tb, Some sigma, Some clf) \<Rightarrow>
          let n_train = length tb; n_test = py_len data in
          (case (case divs of
                   None \<Rightarrow>
                     (case py_add (PyList tb) data of
                        Inl e \<Rightarrow> Inl e
                      | Inr both \<Rightarrow>
                          (case ext_get_divs ext both (div_conf_of (params self))
                                  (cross_mask n_train n_test) of
                             Inl e \<Rightarrow> Inl e
                           | Inr d \<Rightarrow>
                               if is_shape (n_train + n_test) (n_train + n_test) d
                               then Inr (cross_divs n_train n_test d) else Inl Unmodelled))
                 | Some d \<Rightarrow> if is_shape n_test n_train d then Inr d else Inl AssertionError) of
             Inl e \<Rightarrow> Inl e
           | Inr d \<Rightarrow> Inr (ext_svc_predict ext clf (gaussian d sigma)))
      | _ \<Rightarrow> Inl AttributeError)"

text \<open>
  \<^verbatim>\<open>transduct\<close>; the result carries the predictions, the selected pair and the caller's
  \<^verbatim>\<open>sigma_vals\<close> object after the call.
\<close>

definition transduct ::
  "'m ext \<Rightarrow> nat list \<Rightarrow> bags \<Rightarrow> int list \<Rightarrow> bags \<Rightarrow> opts \<Rightarrow> mat option \<Rightarrow> string option
   \<Rightarrow> error + (int list \<times> (real \<times> real) \<times> seq_arg)" where
  "transduct ext idxs train_bags train_labels test_bags ops divs divs_cache =
     (let num_train = py_len train_bags in
      if \<not> squeezed_shape_is train_labels num_train then Inl AssertionError
      else
        (case (case divs of
                 None \<Rightarrow>
                   (case py_add train_bags test_bags of
                      Inl e \<Rightarrow> Inl e
                    | Inr both \<Rightarrow> ext_get_divs_cache ext both (div_conf_of ops) divs_cache)
               | Some d \<Rightarrow>
                   let n_bags = py_len train_bags + py_len test_bags in
                   if is_shape n_bags n_bags d then Inr d else Inl AssertionError) of
           Inl e \<Rightarrow> Inl e
         | Inr d \<Rightarrow>
             (case tune_params ext idxs (map (take num_train) (take num_train d)) train_labels
                     (tuning_folds ops) (n_proc ops) (C_vals ops) (sigma_vals ops)
                     (scale_sigma ops) (tuning_svm_params ops) of
                Inl e \<Rightarrow> Inl e
              | Inr ((sigma, C), sv) \<Rightarrow>
                  (case make_km (ext_eigh ext) d sigma of
                     Inl e \<Rightarrow> Inl e
                   | Inr km \<Rightarrow>
                       let (train_km, test_km) =
                             split_km km [0..<num_train] [num_train..<length d] in
                       (case ext_svc_fit ext C (final_svm_params ops) train_km train_labels of
                          Inl e \<Rightarrow> Inl e
                        | Inr clf \<Rightarrow> Inr (ext_svc_predict ext clf test_km, (sigma, C), sv))))))"

section \<open>Cross-validation\<close>

text \<open>
  \<^verbatim>\<open>itemgetter(*idx)(bags)\<close>: with no index the constructor raises TypeError, with one
  index the call returns that one bag itself, with more it returns a tuple.
\<close>

fun itemgetter :: "nat list \<Rightarrow> bag list \<Rightarrow> error + bags" where
  "itemgetter [] bs = Inl TypeError"
| "itemgetter [i] bs = Inr (OneBag (bs ! i))"
| "itemgetter (i # j # rest) bs = Inr (PyTuple (map (\<lambda>k. bs ! k) (i # j # rest)))"

text \<open>
  \<^verbatim>\<open>preds[idx] = v\<close>: the lengths agree, or \<open>v\<close> has one element, which is then written to
  every position; else ValueError.
\<close>

definition assign_at :: "int list \<Rightarrow> nat list \<Rightarrow> int list \<Rightarrow> error + int list" where
  "assign_at preds idx v =
     (if length v = length idx then Inr (fold (\<lambda>(i, x) acc. acc[i := x]) (zip idx v) preds)
      else if length v = 1 then Inr (fold (\<lambda>i acc. acc[i := hd v]) idx preds)
      else Inl ValueError)"

text \<open>
  The loop over the folds. \<open>inner i\<close> is the shuffle drawn by the tuning inside fold \<open>i\<close>;
  \<open>sv\<close> is the \<^verbatim>\<open>sigma_vals\<close> object, one and the same in every fold. The dictionary
  \<^verbatim>\<open>opts\<close> of the source has no entry \<^verbatim>\<open>min_dist\<close>, so each fold runs with the default.
\<close>

fun cv_loop ::
  "'m ext \<Rightarrow> (nat \<Rightarrow> nat list) \<Rightarrow> bag list \<Rightarrow> int list \<Rightarrow> bool \<Rightarrow> opts \<Rightarrow> mat
   \<Rightarrow> (nat \<times> nat list \<times> nat list) list \<Rightarrow> int list \<Rightarrow> seq_arg
   \<Rightarrow> error + (int list \<times> seq_arg)" where
  "cv_loop ext inner bs labels project_all ops divs [] preds sv = Inr (preds, sv)"
| "cv_loop ext inner bs labels project_all ops divs ((i, train, test) # rest) preds sv =
     (case itemgetter train bs of
        Inl e \<Rightarrow> Inl e
      | Inr train_bags \<Rightarrow>
          (case itemgetter test bs of
             Inl e \<Rightarrow> Inl e
           | Inr test_bags \<Rightarrow>
               let train_labels = take_idx labels train;
                   both = train @ test;
                   ops' = ops\<lparr>sigma_vals := sv, min_dist := None\<rparr>
               in
               (case (if project_all then
                        (case transduct ext (inner i) train_bags train_labels test_bags ops'
                                (Some (ix divs both both)) None of
                           Inl e \<Rightarrow> Inl e
                         | Inr (p, c, sv') \<Rightarrow> Inr (p, sv'))
                      else
                        (case fit ext (inner i) (SDM_init ext ops') train_bags train_labels
                                (Some (ix divs train train)) None of
                           Inl e \<Rightarrow> Inl e
                         | Inr clf \<Rightarrow>
                             (case predict ext clf test_bags None of
                                Inl e \<Rightarrow> Inl e
                              | Inr p \<Rightarrow> Inr (p, sigma_vals (params clf))))) of
                  Inl e \<Rightarrow> Inl e
                | Inr (p, sv') \<Rightarrow>
                    (case assign_at preds test p of
                       Inl e \<Rightarrow> Inl e
                     | Inr preds' \<Rightarrow>
                         cv_loop ext inner bs labels project_all ops divs rest preds' sv'))))"

definition bag_ok :: "nat \<Rightarrow> bag \<Rightarrow> bool" where
  "bag_ok width b \<longleftrightarrow> b \<noteq> [] \<and> list_all (\<lambda>r. length r = width) b"

text \<open>
  \<^verbatim>\<open>crossvalidate\<close>. \<open>outer\<close> is the shuffle of the outer folds. The result is the accuracy,
  the prediction vector and the \<^verbatim>\<open>sigma_vals\<close> object after the run.
\<close>

definition crossvalidate ::
  "'m ext \<Rightarrow> nat list \<Rightarrow> (nat \<Rightarrow> nat list) \<Rightarrow> bag list \<Rightarrow> int list \<Rightarrow> nat \<Rightarrow> bool \<Rightarrow> opts
   \<Rightarrow> mat option \<Rightarrow> string option \<Rightarrow> error + (real \<times> int list \<times> seq_arg)" where
  "crossvalidate ext outer inner bs labels num_folds project_all ops divs divs_cache =
     (let num_bags = length bs in
      if bs = [] then Inl IndexError
      else if \<not> list_all (bag_ok (ncols (bs ! 0))) bs then Inl AssertionError
      else if \<not> squeezed_shape_is labels num_bags then Inl AssertionError
      else
        (case (case divs of
                 None \<Rightarrow> ext_get_divs_cache ext bs (div_conf_of (ops\<lparr>n_proc := None\<rparr>)) divs_cache
               | Some d \<Rightarrow> if is_shape num_bags num_bags d then Inr d else Inl AssertionError) of
           Inl e \<Rightarrow> Inl e
         | Inr d \<Rightarrow>
             (case KFold num_bags num_folds outer of
                Inl e \<Rightarrow> Inl e
              | Inr folds \<Rightarrow>
                  (case cv_loop ext inner bs labels project_all ops d
                          (map (\<lambda>(i, (train, test)). (i, train, test))
                               (zip [1..<Suc (length folds)] folds))
                          (replicate num_bags (- 1)) (sigma_vals ops) of
                     Inl e \<Rightarrow> Inl e
                   | Inr (preds, sv) \<Rightarrow> Inr (accuracy preds labels, preds, sv)))))"

section \<open>The worker pool\<close>

text \<open>
  Modelled from the spec: the pool that \<^verbatim>\<open>mp_utils.get_pool\<close> returns, whose code is not
  among the sources. "Any worker exception aborts the entire tuning call": a task that
  raises has its exception raised in the caller; a task that returns has its result handed
  to the completion callback, which writes the score cell. The number of processes does
  not change the outcome.
\<close>

definition get_pool :: "nat option \<Rightarrow> error + real \<Rightarrow> error + real option" where
  "get_pool nproc task = (case task of Inl e \<Rightarrow> Inl e | Inr v \<Rightarrow> Inr (Some v))"

section \<open>Notions the properties are stated with\<close>

text \<open>
  The cross block as the description of \<^verbatim>\<open>predict\<close> words it: entry \<open>(i, j)\<close> is the mean
  of the divergence from new bag \<open>i\<close> to training bag \<open>j\<close> and of the one from training
  bag \<open>j\<close> to new bag \<open>i\<close>. This definition follows the description, not the source.
\<close>

definition averaged_cross :: "nat \<Rightarrow> nat \<Rightarrow> mat \<Rightarrow> mat" where
  "averaged_cross n_train n_test divs =
     map (\<lambda>i. map (\<lambda>j. (divs ! (n_train + i) ! j + divs ! j ! (n_train + i)) / 2) [0..<n_train])
         [0..<n_test]"

text \<open>The product of a matrix and a vector, eigenvalues, symmetry.\<close>

definition mat_vec :: "mat \<Rightarrow> vec \<Rightarrow> vec" where
  "mat_vec m x = map (\<lambda>row. \<Sum>k\<leftarrow>[0..<length x]. row ! k * x ! k) m"

definition is_eigenvalue :: "mat \<Rightarrow> real \<Rightarrow> bool" where
  "is_eigenvalue m lam \<longleftrightarrow>
     (\<exists>x. length x = length m \<and> (\<exists>i<length x. x ! i \<noteq> 0) \<and> mat_vec m x = map (\<lambda>v. lam * v) x)"

definition is_symmetric :: "mat \<Rightarrow> bool" where
  "is_symmetric m \<longleftrightarrow>
     list_all (\<lambda>i. list_all (\<lambda>j. m ! i ! j = m ! j ! i) [0..<length m]) [0..<length m]"

text \<open>
  The contract of \<^verbatim>\<open>scipy.linalg.eigh\<close> on a symmetric matrix \<open>m\<close>, in exact arithmetic:
  as many eigenvalues as rows, a square matrix \<open>vecs\<close> with orthonormal rows and columns,
  and \<open>m = vecs \<cdot> diag vals \<cdot> vecs\<^sup>T\<close>.
\<close>

definition eigh_ok :: "mat \<Rightarrow> vec \<times> mat \<Rightarrow> bool" where
  "eigh_ok m r \<longleftrightarrow>
     (case r of (vals, vecs) \<Rightarrow>
        let n = length m; idx = [0..<n] in
        length vals = n \<and> is_shape n n vecs \<and>
        list_all (\<lambda>i. list_all (\<lambda>j.
            (\<Sum>k\<leftarrow>idx. vecs ! i ! k * vecs ! j ! k) = (if i = j then 1 else 0)
          \<and> (\<Sum>k\<leftarrow>idx. vecs ! k ! i * vecs ! k ! j) = (if i = j then 1 else 0)
          \<and> m ! i ! j = (\<Sum>k\<leftarrow>idx. vecs ! i ! k * vals ! k * vecs ! j ! k)) idx) idx)"

section \<open>Example collaborators\<close>

text \<open>
  An eigensolver for the examples. On a four-by-four matrix \<open>block4 p a b\<close> it returns the
  eigenvalues \<open>p + a - 2b\<close>, \<open>p - a\<close>, \<open>p - a\<close>, \<open>p + a + 2b\<close> with the eigenvectors
  \<open>(1, 1, -1, -1) / 2\<close>, \<open>(1, -1, 1, -1) / 2\<close>, \<open>(1, -1, -1, 1) / 2\<close>, \<open>(1, 1, 1, 1) / 2\<close>
  as columns, and on a two-by-two matrix \<open>[[p, q], [q, p]]\<close> the eigenvalues \<open>p - q\<close>,
  \<open>p + q\<close>; the lemmas \<open>hadamard_eigh_ok_4\<close> and \<open>hadamard_eigh_ok_2\<close> below show that these
  are eigendecompositions. It raises on every other size.
\<close>

definition block4 :: "real \<Rightarrow> real \<Rightarrow> real \<Rightarrow> mat" where
  "block4 p a b = [[p, a, b, b], [a, p, b, b], [b, b, p, a], [b, b, a, p]]"

definition hadamard_vecs :: mat where
  "hadamard_vecs =
     [[1 / 2, 1 / 2, 1 / 2, 1 / 2], [1 / 2, - (1 / 2), - (1 / 2), 1 / 2],
      [- (1 / 2), 1 / 2, - (1 / 2), 1 / 2], [- (1 / 2), - (1 / 2), 1 / 2, 1 / 2]]"

definition hadamard_eigh :: "mat \<Rightarrow> error + vec \<times> mat" where
  "hadamard_eigh m =
     (if length m = 2 then
        Inr ([m ! 0 ! 0 - m ! 0 ! 1, m ! 0 ! 0 + m ! 0 ! 1],
             [[1 / sqrt 2, 1 / sqrt 2], [- (1 / sqrt 2), 1 / sqrt 2]])
      else if length m = 4 then
        Inr ([m ! 0 ! 0 + m ! 0 ! 1 - 2 * m ! 0 ! 2, m ! 0 ! 0 - m ! 0 ! 1,
              m ! 0 ! 0 - m ! 0 ! 1, m ! 0 ! 0 + m ! 0 ! 1 + 2 * m ! 0 ! 2], hadamard_vecs)
      else Inl LinAlgError)"

text \<open>
  The collaborators of the examples: the eigensolver above; a stand-in solver whose fitted
  state is the training kernel it was given and which predicts the label 0 for every row;
  a pool that calls the callback with the result of a task and raises a task's exception
  in the caller; no divergence estimator (the examples pass the divergences). The options,
  bags and constants are example values.
\<close>

definition demo_ext :: "mat ext" where
  "demo_ext =
     \<lparr> ext_eigh = hadamard_eigh,
       ext_svc_fit = (\<lambda>C sp km y. Inr km),
       ext_svc_predict = (\<lambda>clf km. replicate (length km) 0),
       ext_get_pool = (\<lambda>n r. case r of Inl e \<Rightarrow> Inl e | Inr v \<Rightarrow> Inr (Some v)),
       ext_get_divs = (\<lambda>bs c m. Inl Unmodelled),
       ext_get_divs_cache = (\<lambda>bs c f. Inl Unmodelled),
       ext_FIX_MODE_DEFAULT = ''trim'' \<rparr>"

definition demo_opts :: opts where
  "demo_opts =
     \<lparr> div_func = ''renyi:.9'', K = 3, tuning_folds = 3, n_proc = None, C_vals = [1],
       sigma_vals = PySeq [1], scale_sigma = False, weight_classes = False,
       cache_size = 1000, tuning_cache_size = 1000, svm_tol = 1 / 1000,
       tuning_svm_tol = 1 / 1000, svm_max_iter = 1000000, tuning_svm_max_iter = 1000,
       svm_shrinking = True, fix_mode = ''trim'', tail = 0, min_dist = None \<rparr>"

definition demo_bags :: "bag list" where
  "demo_bags = [[[0, 0], [1, 0]], [[5, 5], [6, 5]], [[0, 1], [1, 1]], [[5, 6], [6, 6]]]"

definition three_bags :: "bag list" where
  "three_bags = [[[0, 0], [1, 0]], [[5, 5], [6, 5]], [[0, 1], [1, 1]]]"

text \<open>The example options with the sigma candidates held in a float array and rescaling on.\<close>

definition demo_array_opts :: opts where
  "demo_array_opts = demo_opts\<lparr>sigma_vals := NdArray [1], scale_sigma := True\<rparr>"

text \<open>
  The example collaborators with a solver whose fit raises for \<open>C = 2\<close>, and with the pool
  \<open>get_pool\<close>.
\<close>

definition failing_fit_ext :: "mat ext" where
  "failing_fit_ext =
     demo_ext\<lparr> ext_svc_fit := (\<lambda>C sp km y. if C = 2 then Inl SolverError else Inr km),
               ext_get_pool := get_pool \<rparr>"

text \<open>
  The kernel that the description of \<^verbatim>\<open>fit\<close> words as "projects and trains on that
  sub-block's kernel only": the projected kernel of the divergences among the labelled
  bags alone. This definition follows the description, not the source.
\<close>

definition labeled_block_kernel ::
  "(mat \<Rightarrow> error + vec \<times> mat) \<Rightarrow> mat \<Rightarrow> nat list \<Rightarrow> real \<Rightarrow> error + mat" where
  "labeled_block_kernel eigh divs train_idx sigma = make_km eigh (ix divs train_idx train_idx) sigma"

section \<open>The Gaussian kernel before projection\<close>

lemma gaussian_nth:
  "i < length divs \<Longrightarrow> j < length (divs ! i) \<Longrightarrow>
   gaussian divs sigma ! i ! j = exp ((divs ! i ! j / sigma)\<^sup>2 / (- 2))"
  by (simp add: gaussian_def)

lemma gaussian_upd:
  assumes "i < length divs" and "j < length (divs ! i)"
  shows "gaussian (divs[i := (divs ! i)[j := d]]) sigma ! i ! j = exp ((d / sigma)\<^sup>2 / (- 2))"
  using assms by (simp add: gaussian_def)

text \<open>
  C8. For a bandwidth \<open>sigma > 0\<close> and a non-negative divergence at position \<open>(i, j)\<close>, the
  kernel that \<^verbatim>\<open>make_km\<close> hands to the projection has the entry \<open>exp (- (D / sigma)\<^sup>2 / 2)\<close>
  there; the entry lies in \<open>(0, 1]\<close>, and it tends to 1 when the divergence at that
  position (a diagonal one for \<open>j = i\<close>) tends to 0. The values are exact reals.
\<close>

theorem make_km_gaussian_range:
  assumes "0 < sigma" and "i < length divs" and "j < length (divs ! i)" and "0 \<le> divs ! i ! j"
  shows "make_km eigh divs sigma = project_psd eigh (gaussian divs sigma) 0
       \<and> gaussian divs sigma ! i ! j = exp (- ((divs ! i ! j / sigma)\<^sup>2 / 2))
       \<and> 0 < gaussian divs sigma ! i ! j \<and> gaussian divs sigma ! i ! j \<le> 1
       \<and> ((\<lambda>d. gaussian (divs[i := (divs ! i)[j := d]]) sigma ! i ! j) \<longlongrightarrow> 1) (at 0)"
proof -
  have e: "gaussian divs sigma ! i ! j = exp (- ((divs ! i ! j / sigma)\<^sup>2 / 2))"
    using assms by (simp add: gaussian_nth)
  have "((\<lambda>d::real. exp ((d / sigma)\<^sup>2 / (- 2))) \<longlongrightarrow> exp ((0 / sigma)\<^sup>2 / (- 2))) (at 0)"
    using assms(1) by (intro tendsto_intros) simp_all
  then have lim: "((\<lambda>d. gaussian (divs[i := (divs ! i)[j := d]]) sigma ! i ! j) \<longlongrightarrow> 1) (at 0)"
    using assms by (simp add: gaussian_upd)
  show ?thesis using e lim by (simp add: make_km_def)
qed

theorem make_km_gaussian_range_witness:
  "gaussian [[0, 2], [2, 0]] 1 ! 0 ! 1 = exp (- 2)
   \<and> 0 < gaussian [[0, 2], [2, 0]] 1 ! 0 ! 1 \<and> gaussian [[0, 2], [2, 0]] 1 ! 0 ! 1 \<le> 1"
  using make_km_gaussian_range [of 1 0 "[[0, 2], [2, 0]]" 1] by simp

section \<open>The degenerate grid\<close>

text \<open>
  With one candidate in each grid \<^verbatim>\<open>tune_params\<close> returns before any kernel is built, any
  fold is drawn or any task is submitted: the result does not depend on the collaborators
  or on the shuffle. The pair it returns is \<open>(C, sigma)\<close>.
\<close>

lemma tune_params_degenerate:
  "tune_params ext idxs divs labels num_folds nproc [C] (PySeq [s]) False sp
     = Inr ((C, s), PySeq [s])"
  by (simp add: tune_params_def)

text \<open>
  The path for larger grids returns \<open>(sigma, C)\<close>, and every caller unpacks the result as
  \<^verbatim>\<open>sigma, C\<close>: whatever its last step \<open>argmax\<close> selects, the first component of the result is
  taken from the sigma grid and the second from the C grid.
\<close>

lemma tune_params_search_order:
  assumes "tune_params ext idxs divs labels num_folds nproc Cvals (PySeq sigmas) False sp
             = Inr ((a, b), caller)"
    and "\<not> (length Cvals \<le> 1 \<and> length sigmas \<le> 1)"
  shows "\<exists>i j. a = sigmas ! j \<and> b = Cvals ! i"
  using assms
  by (auto simp: tune_params_def Let_def split: if_splits sum.splits)

text \<open>
  C1. With the C grid \<open>(2)\<close> and the sigma grid \<open>(3)\<close>, no rescaling, \<^verbatim>\<open>tune_params\<close> returns
  \<open>(2, 3)\<close>: the C candidate first and the sigma candidate second, where the contract
  \<open>(best_sigma, best_C)\<close> asks for \<open>(3, 2)\<close>. No cross-validation runs and no pool is made.
\<close>

theorem tune_params_degenerate_swapped:
  "tune_params ext idxs divs labels num_folds nproc [2] (PySeq [3]) False sp
     = Inr ((2, 3), PySeq [3])
   \<and> tune_params ext idxs divs labels num_folds nproc [2] (PySeq [3]) False sp
     \<noteq> Inr ((3, 2), PySeq [3])"
  by (simp add: tune_params_def)

section \<open>The constructor argument \<open>fix_mode\<close>\<close>

text \<open>
  C10. Whatever is passed as \<^verbatim>\<open>fix_mode\<close>, the estimator stores \<^verbatim>\<open>FIX_MODE_DEFAULT\<close>: two
  estimators built from arguments that differ in \<^verbatim>\<open>fix_mode\<close> only are the same object, they
  hand the same settings to the divergence estimator, and \<^verbatim>\<open>fit\<close>, and \<^verbatim>\<open>predict\<close> after it,
  give the same result on them.
\<close>

theorem SDM_fix_mode_ignored:
  "fix_mode (params (SDM_init ext (args\<lparr>fix_mode := a\<rparr>))) = ext_FIX_MODE_DEFAULT ext
   \<and> SDM_init ext (args\<lparr>fix_mode := a\<rparr>) = SDM_init ext (args\<lparr>fix_mode := b\<rparr>)
   \<and> div_conf_of (params (SDM_init ext (args\<lparr>fix_mode := a\<rparr>)))
       = div_conf_of (params (SDM_init ext (args\<lparr>fix_mode := b\<rparr>)))
   \<and> fit ext idxs (SDM_init ext (args\<lparr>fix_mode := a\<rparr>)) X y divs divs_cache
       = fit ext idxs (SDM_init ext (args\<lparr>fix_mode := b\<rparr>)) X y divs divs_cache
   \<and> (case fit ext idxs (SDM_init ext (args\<lparr>fix_mode := a\<rparr>)) X y divs divs_cache of
         Inl e \<Rightarrow> Inl e | Inr clf \<Rightarrow> predict ext clf data divs')
       = (case fit ext idxs (SDM_init ext (args\<lparr>fix_mode := b\<rparr>)) X y divs divs_cache of
         Inl e \<Rightarrow> Inl e | Inr clf \<Rightarrow> predict ext clf data divs')"
proof -
  have "SDM_init ext (args\<lparr>fix_mode := a\<rparr>) = SDM_init ext (args\<lparr>fix_mode := b\<rparr>)"
    by (simp add: SDM_init_def)
  then show ?thesis by (simp add: SDM_init_def)
qed

section \<open>The cross block of \<^verbatim>\<open>predict\<close>\<close>

text \<open>
  Every row of the block that \<^verbatim>\<open>predict\<close> builds adds the same column of the estimator's
  output, the one of the first new bag.
\<close>

lemma cross_divs_nth:
  assumes "length divs = n_train + n_test" and "0 < n_test" and "i < n_test" and "j < n_train"
  shows "cross_divs n_train n_test divs ! i ! j
           = (divs ! (n_train + i) ! j + divs ! j ! n_train) / 2"
  using assms by (simp add: cross_divs_def Let_def)

text \<open>
  C2. Two training bags, two new bags, and the divergences
  \<open>[[0, 0, 1, 5], [0, 0, 2, 6], [3, 4, 0, 0], [7, 8, 0, 0]]\<close>: the array \<^verbatim>\<open>predict\<close> passes
  through the Gaussian is \<open>[[2, 3], [4, 5]]\<close>, while the elementwise mean of the two
  directions is \<open>[[2, 3], [6, 7]]\<close>. The second row uses the divergences from the training
  bags to the first new bag, not to the second. No projection is applied.
\<close>

theorem predict_cross_not_averaged:
  "cross_divs 2 2 [[0, 0, 1, 5], [0, 0, 2, 6], [3, 4, 0, 0], [7, 8, 0, 0]] = [[2, 3], [4, 5]]
   \<and> averaged_cross 2 2 [[0, 0, 1, 5], [0, 0, 2, 6], [3, 4, 0, 0], [7, 8, 0, 0]] = [[2, 3], [6, 7]]
   \<and> predict (ext\<lparr>ext_get_divs := \<lambda>bs c m. Inr [[0, 0, 1, 5], [0, 0, 2, 6], [3, 4, 0, 0], [7, 8, 0, 0]]\<rparr>)
        \<lparr>params = p, fit_train_bags = Some [b1, b2], fit_sigma = Some s, fit_C = Some c,
         fit_svm = Some clf\<rparr> (PyList [b3, b4]) None
       = Inr (ext_svc_predict ext clf (gaussian [[2, 3], [4, 5]] s))"
  by (simp add: cross_divs_def averaged_cross_def predict_def is_shape_def Let_def upt_rec numeral_nat)

section \<open>Properties of the projection\<close>

subsection \<open>Sums\<close>

lemma sum_list_upt: "(\<Sum>k\<leftarrow>[0..<n]. f k) = (\<Sum>k<n. (f k :: real))"
  by (simp add: interv_sum_list_conv_sum_set_nat atLeast0LessThan)

lemma quad_form:
  fixes V :: "nat \<Rightarrow> nat \<Rightarrow> real" and c x :: "nat \<Rightarrow> real"
  shows "(\<Sum>i<n. \<Sum>j<n. x i * (\<Sum>k<n. V i k * c k * V j k) * x j)
       = (\<Sum>k<n. c k * (\<Sum>i<n. V i k * x i)\<^sup>2)"
proof -
  have "(\<Sum>i<n. \<Sum>j<n. x i * (\<Sum>k<n. V i k * c k * V j k) * x j)
      = (\<Sum>i<n. \<Sum>j<n. \<Sum>k<n. c k * ((V i k * x i) * (V j k * x j)))"
    by (simp add: sum_distrib_left sum_distrib_right mult_ac)
  also have "\<dots> = (\<Sum>i<n. \<Sum>k<n. \<Sum>j<n. c k * ((V i k * x i) * (V j k * x j)))"
    by (subst sum.swap [of _ "{..<n}" "{..<n}"]) (rule refl)
  also have "\<dots> = (\<Sum>k<n. \<Sum>i<n. \<Sum>j<n. c k * ((V i k * x i) * (V j k * x j)))"
    by (rule sum.swap)
  also have "\<dots> = (\<Sum>k<n. c k * (\<Sum>i<n. V i k * x i)\<^sup>2)"
  proof (intro sum.cong refl)
    fix k
    have "(\<Sum>i<n. V i k * x i)\<^sup>2 = (\<Sum>i<n. \<Sum>j<n. (V i k * x i) * (V j k * x j))"
      by (simp only: power2_eq_square sum_product)
    then show "(\<Sum>i<n. \<Sum>j<n. c k * ((V i k * x i) * (V j k * x j)))
             = c k * (\<Sum>i<n. V i k * x i)\<^sup>2"
      by (simp only: sum_distrib_left)
  qed
  finally show ?thesis .
qed

lemma norm_preserved:
  fixes V :: "nat \<Rightarrow> nat \<Rightarrow> real" and x :: "nat \<Rightarrow> real"
  assumes orth: "\<And>i j. i < n \<Longrightarrow> j < n \<Longrightarrow> (\<Sum>k<n. V i k * V j k) = (if i = j then 1 else 0)"
  shows "(\<Sum>k<n. (\<Sum>i<n. V i k * x i)\<^sup>2) = (\<Sum>i<n. (x i)\<^sup>2)"
proof -
  have "(\<Sum>k<n. (\<Sum>i<n. V i k * x i)\<^sup>2) = (\<Sum>k<n. 1 * (\<Sum>i<n. V i k * x i)\<^sup>2)"
    by simp
  also have "\<dots> = (\<Sum>i<n. \<Sum>j<n. x i * (\<Sum>k<n. V i k * 1 * V j k) * x j)"
    by (rule quad_form [symmetric])
  also have "\<dots> = (\<Sum>i<n. \<Sum>j<n. x i * (if i = j then 1 else 0) * x j)"
    by (intro sum.cong refl) (simp add: orth)
  also have "\<dots> = (\<Sum>i<n. (x i)\<^sup>2)"
    by (intro sum.cong refl) (simp add: power2_eq_square sum.delta' if_distrib [of "\<lambda>t. _ * t * _"] if_distrib [of "\<lambda>t. t * _"] cong: if_cong)
  finally show ?thesis .
qed


subsection \<open>Shapes and entries\<close>

lemma is_shape_nth: "is_shape r c m \<Longrightarrow> i < r \<Longrightarrow> length (m ! i) = c"
  by (auto simp: is_shape_def list_all_length)

lemma is_shape_ncols: "is_shape r c m \<Longrightarrow> 0 < r \<Longrightarrow> ncols m = c"
  by (cases m) (auto simp: is_shape_def ncols_def)

lemma is_shapeI: "length m = r \<Longrightarrow> (\<And>i. i < r \<Longrightarrow> length (m ! i) = c) \<Longrightarrow> is_shape r c m"
  by (auto simp: is_shape_def list_all_length)

lemma amin_least: "amin vals = Inr lo \<Longrightarrow> k < length vals \<Longrightarrow> lo \<le> vals ! k"
proof (cases vals)
  case Nil
  assume "amin vals = Inr lo" with Nil show ?thesis by simp
next
  case (Cons x xs)
  assume a: "amin vals = Inr lo" and k: "k < length vals"
  have "lo = Min (set vals)" using a Cons Min.set_eq_fold [of x xs] by simp
  moreover have "vals ! k \<in> set vals" using k by simp
  ultimately show ?thesis by simp
qed

lemma amin_total: "vals \<noteq> [] \<Longrightarrow> \<exists>lo. amin vals = Inr lo"
  by (cases vals) auto

lemma symmetrize_shape: "is_shape (length m) (length m) (symmetrize m)"
  by (auto simp: symmetrize_def is_shape_def list_all_length)

lemma length_symmetrize: "length (symmetrize m) = length m"
  by (simp add: symmetrize_def)

lemma symmetrize_nth:
  "i < length m \<Longrightarrow> j < length m \<Longrightarrow> symmetrize m ! i ! j = (m ! i ! j + m ! j ! i) / 2"
  by (simp add: symmetrize_def)

lemma eigh_ok_D:
  assumes "eigh_ok m (vals, vecs)"
  shows "length vals = length m" and "is_shape (length m) (length m) vecs"
    and "\<And>i j. i < length m \<Longrightarrow> j < length m \<Longrightarrow>
           (\<Sum>k<length m. vecs ! i ! k * vecs ! j ! k) = (if i = j then 1 else 0)"
    and "\<And>i j. i < length m \<Longrightarrow> j < length m \<Longrightarrow>
           (\<Sum>k<length m. vecs ! k ! i * vecs ! k ! j) = (if i = j then 1 else 0)"
    and "\<And>i j. i < length m \<Longrightarrow> j < length m \<Longrightarrow>
           m ! i ! j = (\<Sum>k<length m. vecs ! i ! k * vals ! k * vecs ! j ! k)"
  using assms by (auto simp: eigh_ok_def Let_def list_all_length sum_list_upt)

lemma reconstruct:
  assumes sh: "is_shape n n vecs" and len: "length c = n" and n: "0 < n"
  shows "\<exists>dv r. dot (diag c) (mat_T vecs) = Inr dv \<and> dot vecs dv = Inr r \<and> is_shape n n r
           \<and> (\<forall>i<n. \<forall>j<n. r ! i ! j = (\<Sum>k<n. vecs ! i ! k * c ! k * vecs ! j ! k))"
proof -
  have lv: "length vecs = n" using sh by (simp add: is_shape_def)
  have nc: "ncols vecs = n" using sh n by (rule is_shape_ncols)
  have ld: "length (diag c) = n" "ncols (diag c) = n"
    using len n by (auto simp: diag_def ncols_def upt_conv_Cons)
  have lt: "length (mat_T vecs) = n" by (simp add: mat_T_def nc)
  have nct: "ncols (mat_T vecs) = n"
    using n lv nc by (auto simp: mat_T_def ncols_def upt_conv_Cons)
  define dv where "dv = map (\<lambda>i. map (\<lambda>j. \<Sum>k\<leftarrow>[0..<n]. diag c ! i ! k * mat_T vecs ! k ! j) [0..<n]) [0..<n]"
  have d1: "dot (diag c) (mat_T vecs) = Inr dv"
    by (simp add: dot_def ld lt nct dv_def)
  have dv_nth: "dv ! k ! j = c ! k * vecs ! j ! k" if "k < n" "j < n" for k j
  proof -
    have "dv ! k ! j = (\<Sum>l<n. diag c ! k ! l * mat_T vecs ! l ! j)"
      using that by (simp add: dv_def sum_list_upt)
    also have "\<dots> = (\<Sum>l<n. if k = l then c ! k * vecs ! j ! k else 0)"
      using that by (intro sum.cong refl) (simp add: diag_def len mat_T_def nc lv)
    also have "\<dots> = c ! k * vecs ! j ! k" using that by simp
    finally show ?thesis .
  qed
  have ldv: "length dv = n" "ncols dv = n"
    using n by (auto simp: dv_def ncols_def upt_conv_Cons)
  define r where "r = map (\<lambda>i. map (\<lambda>j. \<Sum>k\<leftarrow>[0..<n]. vecs ! i ! k * dv ! k ! j) [0..<n]) [0..<n]"
  have d2: "dot vecs dv = Inr r"
    by (simp add: dot_def nc ldv lv r_def)
  have shr: "is_shape n n r" by (auto simp: r_def is_shape_def list_all_length)
  have "r ! i ! j = (\<Sum>k<n. vecs ! i ! k * c ! k * vecs ! j ! k)" if "i < n" "j < n" for i j
    using that by (simp add: r_def sum_list_upt dv_nth mult.assoc)
  with d1 d2 shr show ?thesis by blast
qed


lemma project_psd_entries:
  assumes sq: "is_square mat" and ne: "mat \<noteq> []"
    and eg: "eigh (symmetrize mat) = Inr (vals, vecs)"
    and ok: "eigh_ok (symmetrize mat) (vals, vecs)"
  shows "\<exists>R. project_psd eigh mat min_eig = Inr R \<and> is_shape (length mat) (length mat) R
           \<and> (\<forall>i<length mat. \<forall>j<length mat.
                 R ! i ! j = (\<Sum>k<length mat. vecs ! i ! k * max (vals ! k) min_eig * vecs ! j ! k))"
proof -
  define n where "n = length mat"
  have n: "0 < n" using ne by (simp add: n_def)
  have ls: "length (symmetrize mat) = n" by (simp add: length_symmetrize n_def)
  note D = eigh_ok_D [OF ok, unfolded ls]
  have lv: "length vals = n" by (rule D(1))
  then have "vals \<noteq> []" using n by auto
  then obtain lo where lo: "amin vals = Inr lo" using amin_total by blast
  show ?thesis
  proof (cases "lo < min_eig")
    case True
    have "length (maximum vals min_eig) = n" by (simp add: maximum_def lv)
    from reconstruct [OF D(2) this n]
    obtain dv r where d1: "dot (diag (maximum vals min_eig)) (mat_T vecs) = Inr dv"
      and d2: "dot vecs dv = Inr r" and shr: "is_shape n n r"
      and r: "\<And>i j. i < n \<Longrightarrow> j < n \<Longrightarrow>
                r ! i ! j = (\<Sum>k<n. vecs ! i ! k * maximum vals min_eig ! k * vecs ! j ! k)"
      by blast
    have lr: "length r = n" using shr by (simp add: is_shape_def)
    have sqr: "is_square r" using shr lr by (simp add: is_square_def)
    have res: "project_psd eigh mat min_eig = Inr (symmetrize r)"
      using sq eg lo True d1 d2 sqr by (simp add: project_psd_def)
    have sym: "r ! i ! j = r ! j ! i" if "i < n" "j < n" for i j
      using that by (simp add: r mult_ac)
    have "symmetrize r ! i ! j = (\<Sum>k<n. vecs ! i ! k * max (vals ! k) min_eig * vecs ! j ! k)"
      if "i < n" "j < n" for i j
    proof -
      have "symmetrize r ! i ! j = r ! i ! j"
        using that sym [OF that] by (simp add: symmetrize_nth lr)
      also have "\<dots> = (\<Sum>k<n. vecs ! i ! k * max (vals ! k) min_eig * vecs ! j ! k)"
        using that by (simp add: r maximum_def lv)
      finally show ?thesis .
    qed
    moreover have "is_shape n n (symmetrize r)" using symmetrize_shape [of r] lr by simp
    ultimately show ?thesis using res by (auto simp: n_def)
  next
    case False
    have res: "project_psd eigh mat min_eig = Inr (symmetrize mat)"
      using sq eg lo False by (simp add: project_psd_def)
    have "symmetrize mat ! i ! j = (\<Sum>k<n. vecs ! i ! k * max (vals ! k) min_eig * vecs ! j ! k)"
      if "i < n" "j < n" for i j
    proof -
      have "max (vals ! k) min_eig = vals ! k" if "k < n" for k
        using amin_least [OF lo, of k] that lv False by simp
      then show ?thesis using D(5) [OF that] by simp
    qed
    moreover have "is_shape n n (symmetrize mat)" using symmetrize_shape [of mat] by (simp add: n_def)
    ultimately show ?thesis using res by (auto simp: n_def)
  qed
qed

lemma mat_vec_nth:
  "i < length m \<Longrightarrow> mat_vec m x ! i = (\<Sum>k<length x. m ! i ! k * x ! k)"
  by (simp add: mat_vec_def sum_list_upt)

lemma eigenvalue_floor:
  fixes R :: mat
  assumes lR: "length R = n"
    and R: "\<And>i j. i < n \<Longrightarrow> j < n \<Longrightarrow> R ! i ! j = (\<Sum>k<n. vecs ! i ! k * c k * vecs ! j ! k)"
    and orth: "\<And>i j. i < n \<Longrightarrow> j < n \<Longrightarrow>
                 (\<Sum>k<n. vecs ! i ! k * vecs ! j ! k) = (if i = j then 1 else 0)"
    and c: "\<And>k. k < n \<Longrightarrow> lo \<le> c k"
    and ev: "is_eigenvalue R lam"
  shows "lo \<le> lam"
proof -
  from ev obtain x where lx: "length x = n" and nz: "\<exists>i<n. x ! i \<noteq> 0"
    and eq: "mat_vec R x = map (\<lambda>v. lam * v) x"
    using lR unfolding is_eigenvalue_def by metis
  define y where "y k = (\<Sum>i<n. vecs ! i ! k * x ! i)" for k
  have row: "(\<Sum>j<n. R ! i ! j * x ! j) = lam * x ! i" if "i < n" for i
  proof -
    have "mat_vec R x ! i = (\<Sum>j<n. R ! i ! j * x ! j)"
      using that lR lx by (simp add: mat_vec_nth)
    moreover have "map (\<lambda>v. lam * v) x ! i = lam * x ! i" using that lx by simp
    ultimately show ?thesis using eq by simp
  qed
  have "(\<Sum>i<n. \<Sum>j<n. x ! i * R ! i ! j * x ! j) = (\<Sum>i<n. x ! i * (\<Sum>j<n. R ! i ! j * x ! j))"
    by (simp add: sum_distrib_left mult.assoc)
  also have "\<dots> = (\<Sum>i<n. lam * (x ! i)\<^sup>2)"
    by (intro sum.cong refl) (simp add: row power2_eq_square)
  also have "\<dots> = lam * (\<Sum>i<n. (x ! i)\<^sup>2)" by (simp add: sum_distrib_left)
  finally have lhs: "(\<Sum>i<n. \<Sum>j<n. x ! i * R ! i ! j * x ! j) = lam * (\<Sum>i<n. (x ! i)\<^sup>2)" .
  have "(\<Sum>i<n. \<Sum>j<n. x ! i * R ! i ! j * x ! j)
      = (\<Sum>i<n. \<Sum>j<n. x ! i * (\<Sum>k<n. vecs ! i ! k * c k * vecs ! j ! k) * x ! j)"
    by (intro sum.cong refl) (simp add: R)
  also have "\<dots> = (\<Sum>k<n. c k * (y k)\<^sup>2)"
    unfolding y_def by (rule quad_form)
  finally have rhs: "(\<Sum>i<n. \<Sum>j<n. x ! i * R ! i ! j * x ! j) = (\<Sum>k<n. c k * (y k)\<^sup>2)" .
  have nrm: "(\<Sum>k<n. (y k)\<^sup>2) = (\<Sum>i<n. (x ! i)\<^sup>2)"
    unfolding y_def by (rule norm_preserved) (rule orth)
  have "lo * (\<Sum>k<n. (y k)\<^sup>2) = (\<Sum>k<n. lo * (y k)\<^sup>2)" by (simp add: sum_distrib_left)
  also have "\<dots> \<le> (\<Sum>k<n. c k * (y k)\<^sup>2)"
    by (intro sum_mono mult_right_mono) (auto simp: c)
  finally have "lo * (\<Sum>i<n. (x ! i)\<^sup>2) \<le> lam * (\<Sum>i<n. (x ! i)\<^sup>2)"
    using lhs rhs nrm by simp
  moreover have "0 < (\<Sum>i<n. (x ! i)\<^sup>2)"
  proof -
    from nz obtain i where i: "i < n" "x ! i \<noteq> 0" by blast
    have "0 < (x ! i)\<^sup>2" using i by simp
    also have "\<dots> \<le> (\<Sum>i<n. (x ! i)\<^sup>2)"
      using i by (intro member_le_sum) auto
    finally show ?thesis .
  qed
  ultimately show ?thesis by simp
qed

lemma eigh_vals_are_eigenvalues:
  assumes ok: "eigh_ok m (vals, vecs)" and k: "k < length m" and sq: "is_square m"
  shows "is_eigenvalue m (vals ! k)"
proof -
  define n where "n = length m"
  note D = eigh_ok_D [OF ok, folded n_def]
  define x where "x = map (\<lambda>i. vecs ! i ! k) [0..<n]"
  have lx: "length x = n" by (simp add: x_def)
  have xn: "x ! i = vecs ! i ! k" if "i < n" for i using that by (simp add: x_def)
  have kn: "k < n" using k by (simp add: n_def)
  have "mat_vec m x ! i = vals ! k * x ! i" if i: "i < n" for i
  proof -
    have "mat_vec m x ! i = (\<Sum>j<n. m ! i ! j * x ! j)"
      using i by (simp add: mat_vec_nth lx n_def)
    also have "\<dots> = (\<Sum>j<n. (\<Sum>l<n. vecs ! i ! l * vals ! l * vecs ! j ! l) * vecs ! j ! k)"
      using i by (intro sum.cong refl) (simp add: D(5) xn)
    also have "\<dots> = (\<Sum>j<n. \<Sum>l<n. vecs ! i ! l * vals ! l * (vecs ! j ! l * vecs ! j ! k))"
      by (simp add: sum_distrib_right mult.assoc)
    also have "\<dots> = (\<Sum>l<n. \<Sum>j<n. vecs ! i ! l * vals ! l * (vecs ! j ! l * vecs ! j ! k))"
      by (rule sum.swap)
    also have "\<dots> = (\<Sum>l<n. vecs ! i ! l * vals ! l * (\<Sum>j<n. vecs ! j ! l * vecs ! j ! k))"
      by (simp add: sum_distrib_left)
    also have "\<dots> = (\<Sum>l<n. if l = k then vecs ! i ! k * vals ! k else 0)"
      using kn by (intro sum.cong refl) (simp add: D(4))
    also have "\<dots> = vecs ! i ! k * vals ! k" using kn by simp
    finally show ?thesis using i by (simp add: xn)
  qed
  then have "mat_vec m x = map (\<lambda>v. vals ! k * v) x"
    by (intro nth_equalityI) (simp_all add: mat_vec_def lx n_def)
  moreover have "\<exists>i<length x. x ! i \<noteq> 0"
  proof (rule ccontr)
    assume "\<not> (\<exists>i<length x. x ! i \<noteq> 0)"
    then have "vecs ! i ! k = 0" if "i < n" for i using that lx xn by auto
    then have "(\<Sum>i<n. vecs ! i ! k * vecs ! i ! k) = 0" by simp
    then show False using D(4) [OF kn kn] by simp
  qed
  ultimately show ?thesis unfolding is_eigenvalue_def using lx n_def by blast
qed

lemma amin_attained: "amin vals = Inr lo \<Longrightarrow> \<exists>k<length vals. vals ! k = lo"
proof (cases vals)
  case Nil
  assume "amin vals = Inr lo" with Nil show ?thesis by simp
next
  case (Cons x xs)
  assume a: "amin vals = Inr lo"
  have "lo = Min (set vals)" using a Cons Min.set_eq_fold [of x xs] by simp
  then have "lo \<in> set vals" using Cons by (metis Min_in List.finite_set set_empty list.distinct(1))
  then show ?thesis by (simp add: in_set_conv_nth)
qed

lemma symmetrize_id:
  assumes "is_square m" and "is_symmetric m"
  shows "symmetrize m = m"
proof (rule nth_equalityI)
  show "length (symmetrize m) = length m" by (simp add: length_symmetrize)
next
  fix i assume "i < length (symmetrize m)"
  then have i: "i < length m" by (simp add: length_symmetrize)
  have li: "length (m ! i) = length m"
    using assms(1) i by (auto simp: is_square_def is_shape_def list_all_length)
  show "symmetrize m ! i = m ! i"
  proof (rule nth_equalityI)
    show "length (symmetrize m ! i) = length (m ! i)" using i li by (simp add: symmetrize_def)
  next
    fix j assume "j < length (symmetrize m ! i)"
    then have j: "j < length m" using i by (simp add: symmetrize_def)
    have "m ! i ! j = m ! j ! i"
      using assms(2) i j by (auto simp: is_symmetric_def list_all_length)
    then show "symmetrize m ! i ! j = m ! i ! j" using i j by (simp add: symmetrize_nth)
  qed
qed

lemma project_psd_cheap:
  assumes "is_square mat" and "eigh (symmetrize mat) = Inr (vals, vecs)"
    and "amin vals = Inr lo" and "min_eig \<le> lo"
  shows "project_psd eigh mat min_eig = Inr (symmetrize mat)"
  using assms by (simp add: project_psd_def)


lemma eigh_ok_floor:
  assumes ok: "eigh_ok m (vals, vecs)" and lo: "\<And>k. k < length m \<Longrightarrow> lo \<le> vals ! k"
    and ev: "is_eigenvalue m lam"
  shows "lo \<le> lam"
proof (rule eigenvalue_floor [where R = m and n = "length m" and vecs = vecs
      and c = "\<lambda>k. vals ! k", OF refl _ _ _ ev])
  show "m ! i ! j = (\<Sum>k<length m. vecs ! i ! k * vals ! k * vecs ! j ! k)"
    if "i < length m" "j < length m" for i j
    using that by (rule eigh_ok_D(5) [OF ok])
  show "(\<Sum>k<length m. vecs ! i ! k * vecs ! j ! k) = (if i = j then 1 else 0)"
    if "i < length m" "j < length m" for i j
    using that by (rule eigh_ok_D(3) [OF ok])
  show "lo \<le> vals ! k" if "k < length m" for k using that by (rule lo)
qed

lemma project_psd_cong:
  "is_square A \<Longrightarrow> is_square B \<Longrightarrow> symmetrize A = symmetrize B
   \<Longrightarrow> project_psd eigh A e = project_psd eigh B e"
  by (simp add: project_psd_def)

subsection \<open>The example eigensolver\<close>

lemma upt_4: "[0..<4] = [0, 1, 2, 3]" and upt_2: "[0..<2] = [0, 1]"
  by (simp_all add: upt_rec)

lemma hadamard_eigh_block4:
  "hadamard_eigh (block4 p a b) = Inr ([p + a - 2 * b, p - a, p - a, p + a + 2 * b], hadamard_vecs)"
  by (simp add: hadamard_eigh_def block4_def)

lemma hadamard_eigh_ok_4:
  "eigh_ok (block4 p a b) ([p + a - 2 * b, p - a, p - a, p + a + 2 * b], hadamard_vecs)"
  by (simp add: eigh_ok_def block4_def hadamard_vecs_def is_shape_def upt_4 field_simps)

lemma hadamard_eigh_ok_2:
  "eigh_ok [[p, q], [q, p]]
     ([p - q, p + q], [[1 / sqrt 2, 1 / sqrt 2], [- (1 / sqrt 2), 1 / sqrt 2]])"
  by (simp add: eigh_ok_def is_shape_def upt_2 field_simps)

lemma block4_square: "is_square (block4 p a b)" "block4 p a b \<noteq> []" "length (block4 p a b) = 4"
  by (simp_all add: is_square_def is_shape_def block4_def)

lemma block4_symmetric: "is_symmetric (block4 p a b)"
  by (simp add: is_symmetric_def block4_def upt_4)

lemma block4_reconstruct:
  "dot (diag [c0, c1, c1, c3]) (mat_T hadamard_vecs)
     = Inr [[c0 / 2, c0 / 2, - (c0 / 2), - (c0 / 2)], [c1 / 2, - (c1 / 2), c1 / 2, - (c1 / 2)],
            [c1 / 2, - (c1 / 2), - (c1 / 2), c1 / 2], [c3 / 2, c3 / 2, c3 / 2, c3 / 2]]"
  by (simp add: dot_def diag_def mat_T_def hadamard_vecs_def ncols_def upt_4)

lemma block4_reconstruct2:
  "dot hadamard_vecs
     [[c0 / 2, c0 / 2, - (c0 / 2), - (c0 / 2)], [c1 / 2, - (c1 / 2), c1 / 2, - (c1 / 2)],
      [c1 / 2, - (c1 / 2), - (c1 / 2), c1 / 2], [c3 / 2, c3 / 2, c3 / 2, c3 / 2]]
   = Inr (block4 ((c0 + 2 * c1 + c3) / 4) ((c0 - 2 * c1 + c3) / 4) ((c3 - c0) / 4))"
  by (simp add: dot_def hadamard_vecs_def ncols_def upt_4 block4_def field_simps)

lemma symmetrize_block4: "symmetrize (block4 p a b) = block4 p a b"
  by (simp add: symmetrize_def block4_def upt_4)


lemma project_psd_block4:
  "project_psd hadamard_eigh (block4 p a b) e =
     (if fold min [p - a, p - a, p + a + 2 * b] (p + a - 2 * b) < e
      then Inr (block4 ((max (p + a - 2 * b) e + 2 * max (p - a) e + max (p + a + 2 * b) e) / 4)
                       ((max (p + a - 2 * b) e - 2 * max (p - a) e + max (p + a + 2 * b) e) / 4)
                       ((max (p + a + 2 * b) e - max (p + a - 2 * b) e) / 4))
      else Inr (block4 p a b))"
  by (simp only: project_psd_def block4_square symmetrize_block4 hadamard_eigh_block4 Let_def
        maximum_def list.map block4_reconstruct block4_reconstruct2 amin.simps
        sum.case prod.case not_True_eq_False if_False if_True)

lemma gaussian_block4:
  "gaussian (block4 p a b) s = block4 (exp ((p / s)\<^sup>2 / (- 2))) (exp ((a / s)\<^sup>2 / (- 2))) (exp ((b / s)\<^sup>2 / (- 2)))"
  by (simp add: gaussian_def block4_def)

lemma project_psd_block4_kernel:
  assumes "0 < a" and "a < 1"
  shows "project_psd hadamard_eigh (block4 1 a 1) 0
           = Inr (block4 ((5 - a) / 4) ((1 + 3 * a) / 4) ((3 + a) / 4))"
  using assms by (simp add: project_psd_block4 max_def min_def)

lemma make_km_block4_demo:
  "make_km hadamard_eigh (block4 0 1 0) 1
     = Inr (block4 ((5 - exp (- (1 / 2))) / 4) ((1 + 3 * exp (- (1 / 2))) / 4) ((3 + exp (- (1 / 2))) / 4))"
proof -
  have g: "gaussian (block4 0 1 0) 1 = block4 1 (exp (- (1 / 2))) 1"
    by (simp add: gaussian_block4)
  show ?thesis
    unfolding make_km_def g by (rule project_psd_block4_kernel) simp_all
qed

section \<open>The eigenvalue floor\<close>

text \<open>
  C7. Let \<open>mat\<close> be a square matrix with at least one row, and let the eigensolver
  return, for the symmetrized matrix, a decomposition that meets its contract. Then
  \<^verbatim>\<open>project_psd\<close> returns a matrix \<open>R\<close> of the same shape; \<open>R\<close> is symmetric; its entries are
  those of \<open>vecs \<cdot> diag (max vals min_eig) \<cdot> vecs\<^sup>T\<close>, the reconstruction from the eigenvalues
  clamped at the floor; and every eigenvalue of \<open>R\<close> is at least \<open>min_eig\<close>. In exact
  arithmetic no tolerance is needed.
\<close>

theorem project_psd_eigenvalue_floor:
  assumes "is_square mat" and "mat \<noteq> []"
    and "eigh (symmetrize mat) = Inr (vals, vecs)"
    and "eigh_ok (symmetrize mat) (vals, vecs)"
  shows "\<exists>R. project_psd eigh mat min_eig = Inr R
           \<and> is_shape (length mat) (length mat) R \<and> is_symmetric R
           \<and> (\<forall>i<length mat. \<forall>j<length mat.
                 R ! i ! j = (\<Sum>k<length mat. vecs ! i ! k * max (vals ! k) min_eig * vecs ! j ! k))
           \<and> (\<forall>lam. is_eigenvalue R lam \<longrightarrow> min_eig \<le> lam)"
proof -
  define n where "n = length mat"
  from project_psd_entries [of mat eigh vals vecs min_eig] assms
  obtain R where res: "project_psd eigh mat min_eig = Inr R" and sh: "is_shape n n R"
    and R: "\<And>i j. i < n \<Longrightarrow> j < n \<Longrightarrow>
              R ! i ! j = (\<Sum>k<n. vecs ! i ! k * max (vals ! k) min_eig * vecs ! j ! k)"
    unfolding n_def by blast
  have lR: "length R = n" using sh by (simp add: is_shape_def)
  have "is_symmetric R"
    by (simp add: is_symmetric_def list_all_length lR R mult_ac)
  moreover have "min_eig \<le> lam" if "is_eigenvalue R lam" for lam
  proof (rule eigenvalue_floor [OF lR _ _ _ that])
    show "R ! i ! j = (\<Sum>k<n. vecs ! i ! k * max (vals ! k) min_eig * vecs ! j ! k)"
      if "i < n" "j < n" for i j using that by (rule R)
    show "(\<Sum>k<n. vecs ! i ! k * vecs ! j ! k) = (if i = j then 1 else 0)"
      if "i < n" "j < n" for i j
      using eigh_ok_D(3) [OF assms(4)] that by (simp add: length_symmetrize n_def)
    show "min_eig \<le> max (vals ! k) min_eig" for k by simp
  qed
  ultimately show ?thesis using res sh R by (auto simp: n_def)
qed

theorem project_psd_eigenvalue_floor_witness:
  "project_psd hadamard_eigh [[1, 0, 2, 1], [0, 1, 1, 1], [0, 1, 1, 0], [1, 1, 0, 1]] 0
     = Inr (block4 (5 / 4) (1 / 4) (3 / 4))
   \<and> is_symmetric (block4 (5 / 4) (1 / 4) (3 / 4))
   \<and> is_eigenvalue (symmetrize [[1, 0, 2, 1], [0, 1, 1, 1], [0, 1, 1, 0], [1, 1, 0, 1]]) (- 1)
   \<and> \<not> is_eigenvalue (block4 (5 / 4) (1 / 4) (3 / 4)) (- 1)"
proof -
  define A :: mat where "A = [[1, 0, 2, 1], [0, 1, 1, 1], [0, 1, 1, 0], [1, 1, 0, 1]]"
  define vals :: vec where "vals = [1 + 0 - 2 * 1, 1 - 0, 1 - 0, 1 + 0 + 2 * 1]"
  have sA: "symmetrize A = block4 1 0 1"
    by (simp add: A_def symmetrize_def block4_def upt_4)
  have h1: "is_square A" by (simp add: A_def is_square_def is_shape_def)
  have h2: "A \<noteq> []" by (simp add: A_def)
  have h3: "hadamard_eigh (symmetrize A) = Inr (vals, hadamard_vecs)"
    unfolding sA vals_def by (rule hadamard_eigh_block4)
  have h4: "eigh_ok (symmetrize A) (vals, hadamard_vecs)"
    unfolding sA vals_def by (rule hadamard_eigh_ok_4)
  have "project_psd hadamard_eigh A 0 = project_psd hadamard_eigh (block4 1 0 1) 0"
    using h1 block4_square(1) by (rule project_psd_cong) (simp add: sA symmetrize_block4)
  also have "\<dots> = Inr (block4 (5 / 4) (1 / 4) (3 / 4))"
    by (simp add: project_psd_block4)
  finally have ev: "project_psd hadamard_eigh A 0 = Inr (block4 (5 / 4) (1 / 4) (3 / 4))" .
  from project_psd_eigenvalue_floor [of A hadamard_eigh vals hadamard_vecs 0, OF h1 h2 h3 h4]
  obtain R where R: "project_psd hadamard_eigh A 0 = Inr R" "is_symmetric R"
      "\<forall>lam. is_eigenvalue R lam \<longrightarrow> 0 \<le> lam"
    by blast
  from R(1) ev have RR: "R = block4 (5 / 4) (1 / 4) (3 / 4)" by simp
  have "is_eigenvalue R (- 1) \<longrightarrow> (0::real) \<le> - 1" using R(3) by (rule spec)
  then have ne: "\<not> is_eigenvalue R (- 1)" by simp
  have "is_eigenvalue (block4 1 0 1) (vals ! 0)"
    using h4 unfolding sA by (rule eigh_vals_are_eigenvalues) (simp_all add: block4_square)
  then have e1: "is_eigenvalue (symmetrize A) (- 1)" by (simp add: sA vals_def)
  show ?thesis using ev R(2) e1 ne unfolding RR A_def by (intro conjI)
qed

section \<open>Matrices that are positive semidefinite already\<close>

text \<open>
  C9. Let \<open>mat\<close> be a symmetric square matrix, all of whose eigenvalues are non-negative,
  and let the eigensolver meet its contract on it. Then \<^verbatim>\<open>project_psd\<close> with floor 0
  returns \<open>mat\<close> itself; and for any floor that the least computed eigenvalue satisfies,
  it returns the symmetrized input unchanged.
\<close>

theorem project_psd_idempotent:
  assumes "is_square mat" and "mat \<noteq> []" and "is_symmetric mat"
    and "eigh mat = Inr (vals, vecs)" and "eigh_ok mat (vals, vecs)"
    and "\<forall>lam. is_eigenvalue mat lam \<longrightarrow> 0 \<le> lam"
  shows "project_psd eigh mat 0 = Inr mat
       \<and> (\<forall>min_eig lo. amin vals = Inr lo \<and> min_eig \<le> lo
            \<longrightarrow> project_psd eigh mat min_eig = Inr (symmetrize mat))"
proof -
  have sm: "symmetrize mat = mat" using assms(1,3) by (rule symmetrize_id)
  have lv: "length vals = length mat" using eigh_ok_D(1) [OF assms(5)] .
  then have "vals \<noteq> []" using assms(2) by auto
  then obtain lo where lo: "amin vals = Inr lo" using amin_total by blast
  then obtain k where k: "k < length vals" "vals ! k = lo" using amin_attained by blast
  have "is_eigenvalue mat (vals ! k)"
    using assms(5) k(1) assms(1) lv by (intro eigh_vals_are_eigenvalues) simp_all
  then have "0 \<le> lo" using assms(6) k(2) by auto
  then have "project_psd eigh mat 0 = Inr (symmetrize mat)"
    using assms(1,4) lo sm by (intro project_psd_cheap [where vals = vals and vecs = vecs]) simp_all
  moreover have "project_psd eigh mat min_eig = Inr (symmetrize mat)"
    if "amin vals = Inr l" "min_eig \<le> l" for min_eig l
    using assms(1,4) that sm
    by (intro project_psd_cheap [where vals = vals and vecs = vecs and lo = l]) simp_all
  ultimately show ?thesis using sm by auto
qed

theorem project_psd_idempotent_witness:
  "project_psd hadamard_eigh (block4 1 (1 / 2) (1 / 2)) 0 = Inr (block4 1 (1 / 2) (1 / 2))"
proof -
  define vals :: vec where
    "vals = [1 + 1 / 2 - 2 * (1 / 2), 1 - 1 / 2, 1 - 1 / 2, 1 + 1 / 2 + 2 * (1 / 2)]"
  let ?P = "block4 1 (1 / 2) (1 / 2)"
  have h4: "hadamard_eigh ?P = Inr (vals, hadamard_vecs)"
    unfolding vals_def by (rule hadamard_eigh_block4)
  have h5: "eigh_ok ?P (vals, hadamard_vecs)"
    unfolding vals_def by (rule hadamard_eigh_ok_4)
  have "0 \<le> vals ! k" if "k < length ?P" for k
  proof -
    from that have "k < 4" by (simp add: block4_square)
    then have "k = 0 \<or> k = 1 \<or> k = 2 \<or> k = 3" by arith
    then show ?thesis by (auto simp: vals_def)
  qed
  then have h6: "\<forall>lam. is_eigenvalue ?P lam \<longrightarrow> 0 \<le> lam"
    using eigh_ok_floor [OF h5, of 0] by blast
  from project_psd_idempotent [of ?P hadamard_eigh vals hadamard_vecs,
      OF block4_square(1) block4_square(2) block4_symmetric h4 h5 h6]
  show ?thesis by (rule conjunct1)
qed

section \<open>What \<^verbatim>\<open>fit\<close> projects and trains on\<close>

lemma block4_shape: "is_shape n m (block4 p a b) \<longleftrightarrow> n = 4 \<and> m = 4"
  by (auto simp: is_shape_def block4_def)

lemma ix_block4_01: "ix (block4 p a b) [0, Suc 0] [0, Suc 0] = [[p, a], [a, p]]"
  by (simp add: ix_def block4_def)

lemma project_psd_sym2:
  assumes "0 \<le> q" and "q \<le> p"
  shows "project_psd hadamard_eigh [[p, q], [q, p]] 0 = Inr [[p, q], [q, p]]"
proof -
  have "symmetrize [[p, q], [q, p]] = [[p, q], [q, p]]"
    by (simp add: symmetrize_def upt_2)
  moreover have "is_square [[p, q], [q, p]]" by (simp add: is_square_def is_shape_def)
  ultimately show ?thesis using assms
    by (simp add: project_psd_def hadamard_eigh_def min_def)
qed

lemma make_km_labeled_block_demo:
  "make_km hadamard_eigh (ix (block4 0 1 0) [0, 1] [0, 1]) 1
     = Inr [[1, exp (- (1 / 2))], [exp (- (1 / 2)), 1]]"
proof -
  have i: "ix (block4 0 1 0) [0, 1] [0, 1] = [[0, 1], [1, 0]]"
    by (simp add: ix_def block4_def)
  have g: "gaussian [[0, 1], [1, 0]] 1 = [[1, exp (- (1 / 2))], [exp (- (1 / 2)), 1]]"
    by (simp add: gaussian_def)
  show ?thesis
    unfolding make_km_def i g by (rule project_psd_sym2) simp_all
qed

lemma fit_demo:
  "fit demo_ext idxs (SDM_init demo_ext demo_opts) (PyList demo_bags) [0, 1, - 1, - 1]
       (Some (block4 0 1 0)) None
     = Inr ((SDM_init demo_ext demo_opts)
              \<lparr> fit_train_bags := Some [[[0, 0], [1, 0]], [[5, 5], [6, 5]]],
                fit_sigma := Some 1, fit_C := Some 1,
                fit_svm := Some [[(5 - exp (- (1 / 2))) / 4, (1 + 3 * exp (- (1 / 2))) / 4],
                                 [(1 + 3 * exp (- (1 / 2))) / 4, (5 - exp (- (1 / 2))) / 4]] \<rparr>)"
proof -
  have tr: "filter (\<lambda>i. [0, 1, - 1, - 1 :: int] ! i \<noteq> - 1) [0..<4] = [0, 1]"
    by (simp add: upt_4)
  have p: "params (SDM_init demo_ext demo_opts) = demo_opts"
    by (simp add: SDM_init_def demo_ext_def demo_opts_def)
  have tune: "tune_params demo_ext idxs dd yy k np [1] (PySeq [1]) False sp = Inr ((1, 1), PySeq [1])"
    for dd yy k np sp by (rule tune_params_degenerate)
  have e: "ext_eigh demo_ext = hadamard_eigh" "ext_svc_fit demo_ext = (\<lambda>C sp km y. Inr km)"
    by (simp_all add: demo_ext_def)
  have o: "C_vals demo_opts = [1]" "sigma_vals demo_opts = PySeq [1]" "scale_sigma demo_opts = False"
    "demo_opts\<lparr>sigma_vals := PySeq [1]\<rparr> = demo_opts"
    by (simp_all add: demo_opts_def)
  show ?thesis
    by (simp add: fit_def Let_def squeezed_shape_is_def tr p tune e o block4_shape take_idx_def
        make_km_block4_demo ix_block4_01 demo_bags_def SDM_init_def)
qed

lemma labeled_idx_sorted: "sorted_wrt (<) (filter P [0..<n])"
  by (intro sorted_wrt_filter) simp

text \<open>
  Four bags, the last two with the sentinel label, divergence 1 inside each pair of bags
  (first with second, third with fourth) and 0 across. The kernel of the two labelled
  bags alone is positive semidefinite and would be passed on unchanged; the kernel of all
  four bags has the eigenvalue \<open>exp (- 1 / 2) - 1 < 0\<close>, and its projection changes the
  entries of the labelled block. The classifier is trained on the latter.
\<close>

theorem fit_projection_counterexample:
  "map_sum id fit_svm
     (fit demo_ext [0, 1] (SDM_init demo_ext demo_opts) (PyList demo_bags) [0, 1, - 1, - 1]
        (Some (block4 0 1 0)) None)
     = Inr (Some [[(5 - exp (- (1 / 2))) / 4, (1 + 3 * exp (- (1 / 2))) / 4],
                  [(1 + 3 * exp (- (1 / 2))) / 4, (5 - exp (- (1 / 2))) / 4]])
   \<and> labeled_block_kernel (ext_eigh demo_ext) (block4 0 1 0) [0, 1] 1
     = Inr [[1, exp (- (1 / 2))], [exp (- (1 / 2)), 1]]
   \<and> [[(5 - exp (- (1 / 2))) / 4, (1 + 3 * exp (- (1 / 2))) / 4],
       [(1 + 3 * exp (- (1 / 2))) / 4, (5 - exp (- (1 / 2))) / 4]]
     \<noteq> [[1, exp (- (1 / 2))], [exp (- (1 / 2)), 1 :: real]]"
proof -
  have "ext_eigh demo_ext = hadamard_eigh" by (simp add: demo_ext_def)
  then have k: "labeled_block_kernel (ext_eigh demo_ext) (block4 0 1 0) [0, 1] 1
     = Inr [[1, exp (- (1 / 2))], [exp (- (1 / 2)), 1]]"
    by (simp only: labeled_block_kernel_def make_km_labeled_block_demo)
  have "exp (- (1 / 2)) < (1::real)" by simp
  then have "(5 - exp (- (1 / 2))) / 4 \<noteq> (1::real)" by (simp add: field_simps)
  then show ?thesis using k by (simp add: fit_demo)
qed

text \<open>
  C4, as the code has it. When \<^verbatim>\<open>fit\<close> returns, the tuning was run on the sub-block of the
  divergences among the labelled bags, with their labels; the Gaussian kernel of the whole
  passed set, sentinel bags included, was projected; the classifier was fitted on the
  labelled sub-block of that projected kernel, with the labels of the labelled bags, none of
  them the sentinel; and the estimator retains the bags at the labelled positions, in
  increasing order of position.
\<close>

theorem fit_trains_on_block_of_projected_kernel:
  assumes "fit ext idxs self X y divs divs_cache = Inr self'"
  defines "tr \<equiv> filter (\<lambda>i. y ! i \<noteq> - 1) [0..<py_len X]"
  shows "\<exists>d sigma C sv km clf.
           (case divs of
              None \<Rightarrow> ext_get_divs_cache ext (py_items X) (div_conf_of (params self)) divs_cache = Inr d
            | Some d' \<Rightarrow> d' = d \<and> is_shape (py_len X) (py_len X) d)
         \<and> tune_params ext idxs (ix d tr tr) (take_idx y tr) (tuning_folds (params self))
               (n_proc (params self)) (C_vals (params self)) (sigma_vals (params self))
               (scale_sigma (params self)) (tuning_svm_params (params self)) = Inr ((sigma, C), sv)
         \<and> make_km (ext_eigh ext) d sigma = Inr km
         \<and> ext_svc_fit ext C (final_svm_params (params self)) (ix km tr tr) (take_idx y tr) = Inr clf
         \<and> fit_svm self' = Some clf \<and> fit_sigma self' = Some sigma \<and> fit_C self' = Some C
         \<and> fit_train_bags self' = Some (take_idx (py_items X) tr)
         \<and> sorted_wrt (<) tr \<and> set tr = {i. i < py_len X \<and> y ! i \<noteq> - 1}
         \<and> - 1 \<notin> set (take_idx y tr) \<and> 2 \<le> length tr"
proof -
  have a: "sorted_wrt (<) tr" unfolding tr_def by (rule labeled_idx_sorted)
  have b: "set tr = {i. i < py_len X \<and> y ! i \<noteq> - 1}" unfolding tr_def by auto
  have c: "- 1 \<notin> set (take_idx y tr)" unfolding tr_def take_idx_def by auto
  show ?thesis
    using assms(1) a b c unfolding fit_def Let_def tr_def [symmetric]
    by (auto simp: take_idx_def split: if_splits sum.splits option.splits prod.splits)
qed

theorem fit_trains_on_block_of_projected_kernel_witness:
  "map_sum id fit_train_bags
     (fit demo_ext [0, 1] (SDM_init demo_ext demo_opts) (PyList demo_bags) [0, 1, - 1, - 1]
        (Some (block4 0 1 0)) None)
     = Inr (Some (take_idx demo_bags [0, 1]))
   \<and> - 1 \<notin> set (take_idx [0, 1, - 1, - 1 :: int] [0, 1])"
proof -
  let ?y = "[0, 1, - 1, - 1 :: int]"
  define S where "S = (SDM_init demo_ext demo_opts)
              \<lparr> fit_train_bags := Some [[[0, 0], [1, 0]], [[5, 5], [6, 5]]],
                fit_sigma := Some 1, fit_C := Some 1,
                fit_svm := Some [[(5 - exp (- (1 / 2))) / 4, (1 + 3 * exp (- (1 / 2))) / 4],
                                 [(1 + 3 * exp (- (1 / 2))) / 4, (5 - exp (- (1 / 2))) / 4]] \<rparr>"
  have f: "fit demo_ext [0, 1] (SDM_init demo_ext demo_opts) (PyList demo_bags) ?y
             (Some (block4 0 1 0)) None = Inr S"
    unfolding S_def by (rule fit_demo)
  have tr: "filter (\<lambda>i. ?y ! i \<noteq> - 1) [0..<py_len (PyList demo_bags)] = [0, 1]"
    by (simp add: demo_bags_def upt_4)
  from fit_trains_on_block_of_projected_kernel [OF f, unfolded tr]
  have "fit_train_bags S = Some (take_idx (py_items (PyList demo_bags)) [0, 1])"
    and "- 1 \<notin> set (take_idx ?y [0, 1])"
    by blast+
  then show ?thesis unfolding f by simp
qed

section \<open>The folds of \<^verbatim>\<open>KFold\<close> and the accuracy\<close>

lemma upt_3: "[0..<3] = [0, 1, 2]" "[1..<Suc 3] = [1, 2, 3]" "[1..<Suc 2] = [1, 2]"
  by (simp_all add: upt_rec)

lemma KFold_3_3: "KFold 3 3 [0, 1, 2] = Inr [([1, 2], [0]), ([0, 2], [1]), ([0, 1], [2])]"
  by (simp add: KFold_def fold_sizes_def upt_3)

lemma KFold_4_2: "KFold 4 2 [0, 1, 2, 3] = Inr [([2, 3], [0, 1]), ([0, 1], [2, 3])]"
  by (simp add: KFold_def fold_sizes_def upt_4 upt_2)

lemma KFold_2_2: "KFold 2 2 [0, 1] = Inr [([1], [0]), ([0], [1])]"
  by (simp add: KFold_def fold_sizes_def upt_2)

text \<open>
  The fold sizes add up to \<open>n\<close>, so the chunks are a cut of the whole shuffled array: when
  that array is a permutation of \<open>0, \<dots>, n - 1\<close>, every index lies in the test set of
  exactly one fold.
\<close>

lemma sum_list_fold_sizes:
  assumes "0 < k"
  shows "sum_list (fold_sizes n k) = n"
proof -
  have "sum_list (fold_sizes n k) = (\<Sum>f<k. n div k + (if f < n mod k then 1 else 0))"
    by (simp add: fold_sizes_def interv_sum_list_conv_sum_set_nat atLeast0LessThan)
  also have "\<dots> = k * (n div k) + (\<Sum>f<k. if f < n mod k then 1 else 0)"
    by (simp add: sum.distrib)
  also have "(\<Sum>f<k. if f < n mod k then 1 else (0::nat)) = card ({..<k} \<inter> {f. f < n mod k})"
    by (simp add: sum.If_cases)
  also have "{..<k} \<inter> {f. f < n mod k} = {..<n mod k}"
    using assms by (auto intro: less_trans [OF _ mod_less_divisor])
  finally show ?thesis by simp
qed

lemma concat_chunks: "concat (chunks ss xs) = take (sum_list ss) xs"
proof (induction ss arbitrary: xs)
  case Nil
  then show ?case by simp
next
  case (Cons s ss)
  then show ?case by (simp add: take_add)
qed

lemma distinct_concat_nth:
  assumes "distinct (concat xss)" and "j < length xss" and "j' < length xss" and "j \<noteq> j'"
    and "x \<in> set (xss ! j)"
  shows "x \<notin> set (xss ! j')"
  using assms
proof (induction xss arbitrary: j j')
  case Nil
  then show ?case by simp
next
  case (Cons a xss)
  show ?case
  proof (cases j)
    case 0
    then obtain m where m: "j' = Suc m" using Cons.prems(4) by (cases j') auto
    have "x \<in> set a" using Cons.prems(5) 0 by simp
    moreover have "set (xss ! m) \<subseteq> set (concat xss)"
      using Cons.prems(3) m by (auto intro: nth_mem)
    moreover have "set a \<inter> set (concat xss) = {}" using Cons.prems(1) by simp
    ultimately show ?thesis using m by auto
  next
    case (Suc l)
    show ?thesis
    proof (cases j')
      case 0
      have "x \<in> set (concat xss)"
        using Cons.prems(2,5) Suc by (auto intro: nth_mem)
      moreover have "set a \<inter> set (concat xss) = {}" using Cons.prems(1) by simp
      ultimately show ?thesis using 0 by auto
    next
      case (Suc m)
      show ?thesis
        using Cons.IH [of l m] Cons.prems \<open>j = Suc l\<close> Suc by simp
    qed
  qed
qed

lemma KFold_partition:
  assumes "KFold n k idxs = Inr folds" and "set idxs = {..<n}" and "distinct idxs" and "i < n"
  shows "\<exists>!j. j < length folds \<and> i \<in> set (snd (folds ! j))"
proof -
  let ?cs = "chunks (fold_sizes n k) idxs"
  have k: "1 < k" "k \<le> n" using assms(1) by (auto simp: KFold_def split: if_splits)
  have folds: "folds = map (\<lambda>c. (filter (\<lambda>i. i \<notin> set c) [0..<n], filter (\<lambda>i. i \<in> set c) [0..<n])) ?cs"
    using assms(1) k by (simp add: KFold_def)
  have len: "length idxs = n"
    using assms(2,3) distinct_card [of idxs] by simp
  have cc: "concat ?cs = idxs"
    using k len by (simp add: concat_chunks sum_list_fold_sizes)
  have sub: "set c \<subseteq> {..<n}" if "c \<in> set ?cs" for c
  proof -
    have "set c \<subseteq> set (concat ?cs)" using that by auto
    then show ?thesis using cc assms(2) by simp
  qed
  have test: "set (snd (folds ! j)) = set (?cs ! j)" if "j < length ?cs" for j
    using that sub [of "?cs ! j"] by (auto simp: folds)
  have "i \<in> set (concat ?cs)" using cc assms(2,4) by simp
  then obtain c where "c \<in> set ?cs" "i \<in> set c" by auto
  then obtain j where j: "j < length ?cs" "i \<in> set (?cs ! j)"
    by (metis in_set_conv_nth)
  have uniq: "j' = j" if "j' < length ?cs" "i \<in> set (?cs ! j')" for j'
  proof (rule ccontr)
    assume ne: "j' \<noteq> j"
    have "distinct (concat ?cs)" using cc assms(3) by simp
    then have "i \<notin> set (?cs ! j)"
      using that(1) j(1) ne that(2) by (rule distinct_concat_nth)
    then show False using j(2) by simp
  qed
  have lf: "length folds = length ?cs" by (simp add: folds)
  show ?thesis
  proof (rule ex1I [of _ j])
    show "j < length folds \<and> i \<in> set (snd (folds ! j))"
      using j test lf by simp
  next
    fix j' assume a: "j' < length folds \<and> i \<in> set (snd (folds ! j'))"
    then have "j' < length ?cs" using lf by simp
    moreover from this have "i \<in> set (?cs ! j')" using a test [of j'] by simp
    ultimately show "j' = j" by (rule uniq)
  qed
qed

text \<open>
  The accuracy is a fraction of matching positions, and a run of \<^verbatim>\<open>crossvalidate\<close> that
  returns gives the accuracy of the prediction vector it returns.
\<close>

lemma accuracy_range: "0 \<le> accuracy preds labels \<and> accuracy preds labels \<le> 1"
proof -
  have "length (filter (\<lambda>(p, l). p = l) (zip preds labels)) \<le> length (zip preds labels)"
    by (rule length_filter_le)
  also have "\<dots> \<le> length labels" by simp
  finally have "real (length (filter (\<lambda>(p, l). p = l) (zip preds labels))) \<le> real (length labels)"
    by simp
  then show ?thesis
    by (simp add: accuracy_def divide_le_eq_1)
qed

lemma crossvalidate_accuracy:
  assumes "crossvalidate ext outer inner bs labels k pa ops divs cache = Inr (acc, preds, sv)"
  shows "acc = accuracy preds labels \<and> 0 \<le> acc \<and> acc \<le> 1"
proof -
  have "acc = accuracy preds labels"
    using assms
    by (auto simp: crossvalidate_def Let_def split: if_splits sum.splits option.splits prod.splits)
  then show ?thesis using accuracy_range [of preds labels] by simp
qed

lemma crossvalidate_given_divs:
  assumes "bs \<noteq> []" and "list_all (bag_ok (ncols (bs ! 0))) bs"
    and "squeezed_shape_is labels (length bs)" and "is_shape (length bs) (length bs) d"
    and "KFold (length bs) k outer = Inr folds"
  shows "crossvalidate ext outer inner bs labels k pa ops (Some d) cache
           = (case cv_loop ext inner bs labels pa ops d
                     (map (\<lambda>(i, (train, test)). (i, train, test))
                          (zip [1..<Suc (length folds)] folds))
                     (replicate (length bs) (- 1)) (sigma_vals ops) of
                Inl e \<Rightarrow> Inl e
              | Inr (preds, sv) \<Rightarrow> Inr (accuracy preds labels, preds, sv))"
  using assms by (simp add: crossvalidate_def Let_def)

section \<open>Cross-validation runs that raise\<close>

text \<open>
  A test fold of one index: \<^verbatim>\<open>itemgetter\<close> returns the bag itself, \<^verbatim>\<open>len\<close> of it is its
  number of points, and the shape assertion of \<^verbatim>\<open>transduct\<close> fails unless the bag has
  exactly one point.
\<close>

lemma cv_loop_transduct_raises:
  assumes "itemgetter train bs = Inr tb" and "itemgetter test bs = Inr teb"
    and "transduct ext (inner i) tb (take_idx labels train) teb
           (ops\<lparr>sigma_vals := sv, min_dist := None\<rparr>)
           (Some (ix d (train @ test) (train @ test))) None = Inl e"
  shows "cv_loop ext inner bs labels True ops d ((i, train, test) # rest) preds sv = Inl e"
  using assms by (simp add: Let_def)

lemma transduct_single_test_bag:
  assumes "is_shape n n d" and "length b \<noteq> 1" and "n = Suc (length bs)"
  shows "transduct ext idxs (PyTuple bs) ls (OneBag b) ops (Some d) cache = Inl AssertionError"
  using assms by (auto simp: transduct_def Let_def is_shape_def)

lemma crossvalidate_singleton_fold_raises:
  "crossvalidate ext [0, 1, 2] inner three_bags [0, 1, 0] 3 True ops
      (Some [[0, 1, 2], [1, 0, 3], [2, 3, 0]]) divs_cache
     = Inl AssertionError"
proof -
  let ?d = "[[0, 1, 2], [1, 0, 3], [2, 3, 0 :: real]]"
  have len: "length three_bags = 3" by (simp add: three_bags_def)
  have h1: "three_bags \<noteq> []" by (simp add: three_bags_def)
  have h2: "list_all (bag_ok (ncols (three_bags ! 0))) three_bags"
    by (simp add: three_bags_def bag_ok_def ncols_def)
  have h3: "squeezed_shape_is [0, 1, 0] (length three_bags)"
    by (simp add: squeezed_shape_is_def len)
  have h4: "is_shape (length three_bags) (length three_bags) ?d"
    by (simp add: is_shape_def len)
  have h5: "KFold (length three_bags) 3 [0, 1, 2]
              = Inr [([1, 2], [0]), ([0, 2], [1]), ([0, 1], [2])]"
    unfolding len by (rule KFold_3_3)
  have g1: "itemgetter [1, 2] three_bags = Inr (PyTuple [three_bags ! 1, three_bags ! 2])"
    by simp
  have g2: "itemgetter [0] three_bags = Inr (OneBag (three_bags ! 0))" by simp
  have t: "transduct ext (inner 1) (PyTuple [three_bags ! 1, three_bags ! 2])
             (take_idx [0, 1, 0] [1, 2]) (OneBag (three_bags ! 0))
             (ops\<lparr>sigma_vals := sigma_vals ops, min_dist := None\<rparr>)
             (Some (ix ?d ([1, 2] @ [0]) ([1, 2] @ [0]))) None = Inl AssertionError"
    by (rule transduct_single_test_bag [where n = 3])
       (simp_all add: is_shape_def ix_def three_bags_def)
  have c: "cv_loop ext inner three_bags [0, 1, 0] True ops ?d
          ((1, [1, 2], [0]) # [(2, [0, 2], [1]), (3, [0, 1], [2])])
          (replicate (length three_bags) (- 1)) (sigma_vals ops) = Inl AssertionError"
    using g1 g2 t by (rule cv_loop_transduct_raises)
  have z: "map (\<lambda>(i, (train, test)). (i, train, test))
             (zip [1..<Suc (length [([1, 2], [0]), ([0, 2], [1]), ([0, 1], [2 :: nat])])]
                  [([1, 2], [0]), ([0, 2], [1]), ([0, 1], [2])])
           = (1, [1, 2], [0]) # [(2, [0, 2], [1]), (3, [0, 1], [2])]"
    by (simp add: upt_rec)
  show ?thesis
    by (simp only: crossvalidate_given_divs [OF h1 h2 h3 h4 h5] z c sum.case)
qed

text \<open>
  The inductive protocol: \<^verbatim>\<open>fit\<close> keeps the training bags in a list, and \<^verbatim>\<open>predict\<close>,
  called without divergences, adds the tuple of test bags to it.
\<close>

lemma fit_sets_attributes:
  assumes "fit ext idxs self X y divs divs_cache = Inr clf"
  shows "\<exists>tb s m. fit_train_bags clf = Some tb \<and> fit_sigma clf = Some s \<and> fit_svm clf = Some m"
  using assms
  by (auto simp: fit_def Let_def split: if_splits sum.splits option.splits prod.splits)

lemma fit_then_predict_tuple_raises:
  assumes "fit ext idxs self X y divs divs_cache = Inr clf"
  shows "predict ext clf (PyTuple t) None = Inl TypeError"
proof -
  obtain tb s m where "fit_train_bags clf = Some tb" "fit_sigma clf = Some s" "fit_svm clf = Some m"
    using fit_sets_attributes [OF assms] by blast
  then show ?thesis by (simp add: predict_def)
qed

lemma cv_loop_inductive_tuple_raises:
  assumes "itemgetter train bs = Inr tb" and "itemgetter test bs = Inr (PyTuple t)"
    and "fit ext (inner i) (SDM_init ext (ops\<lparr>sigma_vals := sv, min_dist := None\<rparr>)) tb
           (take_idx labels train) (Some (ix d train train)) None = Inr clf"
  shows "cv_loop ext inner bs labels False ops d ((i, train, test) # rest) preds sv = Inl TypeError"
  using assms fit_then_predict_tuple_raises [OF assms(3), of t]
  by (simp add: Let_def)

lemma make_km_sym2:
  assumes "s \<noteq> 0"
  shows "make_km hadamard_eigh [[0, t], [t, 0]] s
           = Inr [[1, exp ((t / s)\<^sup>2 / (- 2))], [exp ((t / s)\<^sup>2 / (- 2)), 1]]"
proof -
  have g: "gaussian [[0, t], [t, 0]] s
             = [[1, exp ((t / s)\<^sup>2 / (- 2))], [exp ((t / s)\<^sup>2 / (- 2)), 1]]"
    by (simp add: gaussian_def)
  show ?thesis
    unfolding make_km_def g by (rule project_psd_sym2) simp_all
qed

lemma fit_demo_fold:
  "\<exists>clf. fit demo_ext idxs (SDM_init demo_ext (demo_opts\<lparr>sigma_vals := PySeq [1], min_dist := None\<rparr>))
           (PyTuple [b1, b2]) [0, 1] (Some [[0, 2], [2, 0]]) None = Inr clf"
proof -
  have tr: "filter (\<lambda>i. [0, 1 :: int] ! i \<noteq> - 1) [0..<2] = [0, 1]"
    by (simp add: upt_2)
  have p: "params (SDM_init demo_ext (demo_opts\<lparr>sigma_vals := PySeq [1], min_dist := None\<rparr>)) = demo_opts"
    by (simp add: SDM_init_def demo_ext_def demo_opts_def)
  have tune: "tune_params demo_ext idxs dd yy k np [1] (PySeq [1]) False sp = Inr ((1, 1), PySeq [1])"
    for dd yy k np sp by (rule tune_params_degenerate)
  have e: "ext_eigh demo_ext = hadamard_eigh" "ext_svc_fit demo_ext = (\<lambda>C sp km y. Inr km)"
    by (simp_all add: demo_ext_def)
  have o: "C_vals demo_opts = [1]" "sigma_vals demo_opts = PySeq [1]" "scale_sigma demo_opts = False"
    by (simp_all add: demo_opts_def)
  have i: "ix [[0, 2], [2, 0 :: real]] [0, 1] [0, 1] = [[0, 2], [2, 0]]"
    by (simp add: ix_def)
  have m: "make_km hadamard_eigh [[0, 2], [2, 0]] 1 = Inr [[1, exp (- 2)], [exp (- 2), 1]]"
    using make_km_sym2 [of 1 2] by simp
  show ?thesis
    unfolding fit_def
    by (simp add: Let_def squeezed_shape_is_def is_shape_def tr p tune e o i m take_idx_def)
qed

lemma crossvalidate_inductive_raises:
  "crossvalidate demo_ext [0, 1, 2, 3] inner demo_bags [0, 1, 0, 1] 2 False demo_opts
      (Some (block4 0 2 2)) None = Inl TypeError"
proof -
  have len: "length demo_bags = 4" by (simp add: demo_bags_def)
  have h1: "demo_bags \<noteq> []" by (simp add: demo_bags_def)
  have h2: "list_all (bag_ok (ncols (demo_bags ! 0))) demo_bags"
    by (simp add: demo_bags_def bag_ok_def ncols_def)
  have h3: "squeezed_shape_is [0, 1, 0, 1] (length demo_bags)"
    by (simp add: squeezed_shape_is_def len)
  have h4: "is_shape (length demo_bags) (length demo_bags) (block4 0 2 2)"
    by (simp add: len block4_shape)
  have h5: "KFold (length demo_bags) 2 [0, 1, 2, 3] = Inr [([2, 3], [0, 1]), ([0, 1], [2, 3])]"
    unfolding len by (rule KFold_4_2)
  have g1: "itemgetter [2, 3] demo_bags = Inr (PyTuple [demo_bags ! 2, demo_bags ! 3])"
    by simp
  have g2: "itemgetter [0, 1] demo_bags = Inr (PyTuple [demo_bags ! 0, demo_bags ! 1])"
    by simp
  have i: "ix (block4 0 2 2) [2, 3] [2, 3] = [[0, 2], [2, 0]]"
    by (simp add: ix_def block4_def)
  have t: "take_idx [0, 1, 0, 1 :: int] [2, 3] = [0, 1]"
    by (simp add: take_idx_def)
  have s: "sigma_vals demo_opts = PySeq [1]" by (simp add: demo_opts_def)
  obtain clf where f: "fit demo_ext (inner 1)
      (SDM_init demo_ext (demo_opts\<lparr>sigma_vals := PySeq [1], min_dist := None\<rparr>))
      (PyTuple [demo_bags ! 2, demo_bags ! 3]) (take_idx [0, 1, 0, 1] [2, 3])
      (Some (ix (block4 0 2 2) [2, 3] [2, 3])) None = Inr clf"
    unfolding i t using fit_demo_fold by blast
  have c: "cv_loop demo_ext inner demo_bags [0, 1, 0, 1] False demo_opts (block4 0 2 2)
             ((1, [2, 3], [0, 1]) # rest) preds (PySeq [1]) = Inl TypeError" for rest preds
    using g1 g2 f by (rule cv_loop_inductive_tuple_raises)
  have z: "map (\<lambda>(i, (train, test)). (i, train, test))
             (zip [1..<Suc (length [([2, 3], [0, 1]), ([0, 1], [2, 3 :: nat])])]
                  [([2, 3], [0, 1]), ([0, 1], [2, 3])])
           = [(1, [2, 3], [0, 1]), (2, [0, 1], [2, 3])]"
    by (simp add: upt_3)
  show ?thesis
    by (simp only: crossvalidate_given_divs [OF h1 h2 h3 h4 h5] z c s sum.case)
qed

text \<open>
  C6. Three bags of two points each, labels \<open>0, 1, 0\<close> and three folds (\<open>2 \<le> k \<le> n\<close>), with
  the divergences passed in: the first fold tests on one bag, and the run raises
  AssertionError before any prediction is assigned, whatever the collaborators are. With
  four bags, two folds and \<^verbatim>\<open>project_all=False\<close> the run raises TypeError in the first
  fold, after \<^verbatim>\<open>fit\<close> has returned. In neither run does a bag receive a prediction or is
  an accuracy returned.
\<close>

theorem crossvalidate_raises_on_legal_folds:
  "crossvalidate ext [0, 1, 2] inner three_bags [0, 1, 0] 3 True ops
      (Some [[0, 1, 2], [1, 0, 3], [2, 3, 0]]) divs_cache = Inl AssertionError
   \<and> crossvalidate demo_ext [0, 1, 2, 3] inner' demo_bags [0, 1, 0, 1] 2 False demo_opts
      (Some (block4 0 2 2)) None = Inl TypeError"
  using crossvalidate_singleton_fold_raises [of ext inner ops divs_cache]
    crossvalidate_inductive_raises [of inner']
  by (rule conjI)

section \<open>Rescaling of the sigma candidates\<close>

text \<open>
  A tuple or a list of candidates is left as it was; a float array holds the rescaled
  candidates after the call.
\<close>

lemma tune_params_tuple_unchanged:
  assumes "tune_params ext idxs divs labels k np Cs (PySeq xs) scale sp = Inr (r, sv)"
  shows "sv = PySeq xs"
  using assms
  by (auto simp: tune_params_def Let_def split: if_splits sum.splits)

lemma tune_params_array_overwritten:
  assumes "tune_params ext idxs divs labels k np Cs (NdArray xs) True sp = Inr (r, sv)"
    and "median (positive_entries divs) = Inr med"
  shows "sv = NdArray (map (\<lambda>s. s * med) xs)"
  using assms
  by (auto simp: tune_params_def Let_def split: if_splits sum.splits)

text \<open>
  A run of \<^verbatim>\<open>crossvalidate\<close> with two folds on the example bags, all divergences between
  different bags equal to 2, and the candidate 1 in a float array.
\<close>

lemma project_psd_block4_psd:
  assumes "0 \<le> a" and "a \<le> 1"
  shows "project_psd hadamard_eigh (block4 1 a a) 0 = Inr (block4 1 a a)"
  using assms by (simp add: project_psd_block4 min_def)

lemma make_km_uniform4:
  assumes "s \<noteq> 0"
  shows "make_km hadamard_eigh (block4 0 t t) s
           = Inr (block4 1 (exp ((t / s)\<^sup>2 / (- 2))) (exp ((t / s)\<^sup>2 / (- 2))))"
  unfolding make_km_def gaussian_block4
  using assms by (simp add: project_psd_block4_psd)

lemma tune_params_degenerate_scaled:
  "tune_params ext idxs [[0, 2], [2, 0]] labels k np [C] (NdArray [s]) True sp
     = Inr ((C, s * 2), NdArray [s * 2])"
  by (simp add: tune_params_def positive_entries_def median_def)

lemma take_block4: "map (take (Suc (Suc 0))) (take (Suc (Suc 0)) (block4 p a b)) = [[p, a], [a, p]]"
  by (simp add: block4_def)

lemma split_km_block4:
  "split_km (block4 p a b) [0..<Suc (Suc 0)] [Suc (Suc 0)..<length (block4 q c d)]
     = ([[p, a], [a, p]], [[b, b], [b, b]])"
  by (simp add: split_km_def ix_def block4_def upt_rec)

lemma transduct_demo:
  assumes "C_vals ops = [1]" and "sigma_vals ops = NdArray [s]" and "scale_sigma ops"
  shows "transduct demo_ext idxs (PyTuple [b1, b2]) [l1, l2] (PyTuple [b3, b4]) ops
           (Some (block4 0 2 2)) None
         = Inr ([0, 0], (1, s * 2), NdArray [s * 2])"
proof -
  have e: "ext_eigh demo_ext = hadamard_eigh" "ext_svc_fit demo_ext = (\<lambda>C sp km y. Inr km)"
    "ext_svc_predict demo_ext = (\<lambda>clf km. replicate (length km) 0)"
    by (simp_all add: demo_ext_def)
  have m: "make_km hadamard_eigh (block4 0 2 2) 1 = Inr (block4 1 (exp (- 2)) (exp (- 2)))"
    using make_km_uniform4 [of 1 2] by simp
  show ?thesis
    by (simp add: transduct_def Let_def squeezed_shape_is_def block4_shape take_block4 assms
        tune_params_degenerate_scaled e m split_km_block4 del: upt_Suc)
qed

lemma crossvalidate_compounds:
  "crossvalidate demo_ext [0, 1, 2, 3] inner demo_bags [0, 1, 0, 1] 2 True demo_array_opts
      (Some (block4 0 2 2)) None = Inr (1 / 2, [0, 0, 0, 0], NdArray [4])"
proof -
  have len: "length demo_bags = 4" by (simp add: demo_bags_def)
  have h1: "demo_bags \<noteq> []" by (simp add: demo_bags_def)
  have h2: "list_all (bag_ok (ncols (demo_bags ! 0))) demo_bags"
    by (simp add: demo_bags_def bag_ok_def ncols_def)
  have h3: "squeezed_shape_is [0, 1, 0, 1] (length demo_bags)"
    by (simp add: squeezed_shape_is_def len)
  have h4: "is_shape (length demo_bags) (length demo_bags) (block4 0 2 2)"
    by (simp add: len block4_shape)
  have h5: "KFold (length demo_bags) 2 [0, 1, 2, 3] = Inr [([2, 3], [0, 1]), ([0, 1], [2, 3])]"
    unfolding len by (rule KFold_4_2)
  have i: "ix (block4 0 2 2) [2, 3, 0, Suc 0] [2, 3, 0, Suc 0] = block4 0 2 2"
    "ix (block4 0 2 2) [0, Suc 0, 2, 3] [0, Suc 0, 2, 3] = block4 0 2 2"
    by (simp_all add: ix_def block4_def)
  have t: "take_idx [0, 1, 0, 1 :: int] [2, 3] = [0, 1]" "take_idx [0, 1, 0, 1 :: int] [0, Suc 0] = [0, 1]"
    by (simp_all add: take_idx_def)
  have o: "C_vals (demo_array_opts\<lparr>sigma_vals := NdArray [s], min_dist := None\<rparr>) = [1]"
    "sigma_vals (demo_array_opts\<lparr>sigma_vals := NdArray [s], min_dist := None\<rparr>) = NdArray [s]"
    "scale_sigma (demo_array_opts\<lparr>sigma_vals := NdArray [s], min_dist := None\<rparr>)" for s
    by (simp_all add: demo_array_opts_def demo_opts_def)
  have tr: "transduct demo_ext idxs (PyTuple [b1, b2]) [0, 1] (PyTuple [b3, b4])
              (demo_array_opts\<lparr>sigma_vals := NdArray [s], min_dist := None\<rparr>)
              (Some (block4 0 2 2)) None = Inr ([0, 0], (1, s * 2), NdArray [s * 2])"
    for idxs b1 b2 b3 b4 s
    by (rule transduct_demo [OF o])
  have r: "replicate 4 (- 1 :: int) = [- 1, - 1, - 1, - 1]"
    by (simp add: numeral_nat)
  have a: "assign_at [- 1, - 1, - 1, - 1] [0, Suc 0] [0, 0] = Inr [0, 0, - 1, - 1]"
    "assign_at [0, 0, - 1, - 1] [2, 3] [0, 0] = Inr [0, 0, 0, 0]"
    by (simp_all add: assign_at_def numeral_nat)
  have c: "cv_loop demo_ext inner demo_bags [0, 1, 0, 1] True demo_array_opts (block4 0 2 2)
             [(1, [2, 3], [0, 1]), (2, [0, 1], [2, 3])] [- 1, - 1, - 1, - 1] (NdArray [1])
           = Inr ([0, 0, 0, 0], NdArray [4])"
    by (simp add: Let_def i t tr a)
  have z: "map (\<lambda>(i, (train, test)). (i, train, test))
             (zip [1..<Suc (length [([2, 3], [0, 1]), ([0, 1], [2, 3 :: nat])])]
                  [([2, 3], [0, 1]), ([0, 1], [2, 3])])
           = [(1, [2, 3], [0, 1]), (2, [0, 1], [2, 3])]"
    by (simp add: upt_3)
  have s: "sigma_vals demo_array_opts = NdArray [1]"
    by (simp add: demo_array_opts_def)
  have acc: "accuracy [0, 0, 0, 0] [0, 1, 0, 1] = 1 / 2"
    by (simp add: accuracy_def)
  show ?thesis
    by (simp only: crossvalidate_given_divs [OF h1 h2 h3 h4 h5] z len r c s sum.case prod.case acc)
qed

text \<open>
  C3. The candidates are handed over as a float array holding \<open>1\<close>, and the median
  positive divergence is \<open>2\<close>. The call uses the bandwidth \<open>2\<close> and leaves \<open>2\<close> in the
  caller's array; the next call on that array uses \<open>4\<close>. A run of \<^verbatim>\<open>crossvalidate\<close> with
  two folds leaves \<open>4\<close> in the array: its second fold started from \<open>2\<close>, not from \<open>1\<close>.
\<close>

theorem tune_params_rescales_callers_array:
  "tune_params ext idxs [[0, 2], [2, 0]] labels num_folds nproc [1] (NdArray [1]) True sp
     = Inr ((1, 2), NdArray [2])
   \<and> tune_params ext idxs' [[0, 2], [2, 0]] labels num_folds nproc [1] (NdArray [2]) True sp
     = Inr ((1, 4), NdArray [4])
   \<and> crossvalidate demo_ext [0, 1, 2, 3] inner demo_bags [0, 1, 0, 1] 2 True demo_array_opts
      (Some (block4 0 2 2)) None = Inr (1 / 2, [0, 0, 0, 0], NdArray [4])"
proof -
  have "tune_params ext idxs [[0, 2], [2, 0]] labels num_folds nproc [1] (NdArray [1]) True sp
          = Inr ((1, 2), NdArray [2])"
    using tune_params_degenerate_scaled [of ext idxs labels num_folds nproc 1 1 sp] by simp
  moreover have "tune_params ext idxs' [[0, 2], [2, 0]] labels num_folds nproc [1] (NdArray [2]) True sp
          = Inr ((1, 4), NdArray [4])"
    using tune_params_degenerate_scaled [of ext idxs' labels num_folds nproc 1 2 sp] by simp
  ultimately show ?thesis
    using crossvalidate_compounds [of inner] by simp
qed

section \<open>A failing tuning task\<close>

lemma sequence_fails: "Inl e \<in> set xs \<Longrightarrow> \<exists>e'. sequence xs = Inl e'"
  by (induction xs) (auto split: sum.splits)

lemma sequence_Inl_mem: "sequence xs = Inl e \<Longrightarrow> Inl e \<in> set xs"
  by (induction xs) (auto split: sum.splits)

lemma get_pool_Inl: "get_pool nproc r = Inl e \<longleftrightarrow> r = Inl e"
  by (simp add: get_pool_def split: sum.splits)

lemma try_params_fit_raises:
  assumes "ext_svc_fit ext C sp (fst (split_km km train test)) (take_idx labels train) = Inl e"
  shows "try_params ext km labels train test C sp = Inl e"
  using assms by (simp add: try_params_def split_beta)

lemma pool_tasks_abort:
  assumes "C \<in> set Cvals" and "km \<in> set kms" and "(train, test) \<in> set folds"
    and "try_params ext km labels train test C sp = Inl e"
  shows "\<exists>e'. sequence (map (\<lambda>C. sequence (map (\<lambda>km. sequence (map (\<lambda>(train, test).
                    get_pool nproc (try_params ext km labels train test C sp)) folds)) kms)) Cvals)
               = Inl e'
            \<and> (\<exists>C' \<in> set Cvals. \<exists>km' \<in> set kms. \<exists>(tr, te) \<in> set folds.
                  try_params ext km' labels tr te C' sp = Inl e')"
proof -
  let ?t = "\<lambda>C km (train, test). get_pool nproc (try_params ext km labels train test C sp)"
  let ?f = "\<lambda>C km. sequence (map (?t C km) folds)"
  let ?k = "\<lambda>C. sequence (map (?f C) kms)"
  have "?t C km (train, test) = Inl e"
    using assms(4) by (simp add: get_pool_Inl)
  then have "Inl e \<in> ?t C km ` set folds"
    using assms(3) by (intro image_eqI [where x = "(train, test)"]) simp_all
  then have "Inl e \<in> set (map (?t C km) folds)" by simp
  then obtain e1 where e1: "?f C km = Inl e1" using sequence_fails by blast
  then have "Inl e1 \<in> set (map (?f C) kms)" using assms(2) by force
  then obtain e2 where e2: "?k C = Inl e2" using sequence_fails by blast
  then have "Inl e2 \<in> set (map ?k Cvals)" using assms(1) by force
  then obtain e3 where e3: "sequence (map ?k Cvals) = Inl e3" using sequence_fails by blast
  from sequence_Inl_mem [OF e3] obtain C' where C': "C' \<in> set Cvals" "?k C' = Inl e3" by force
  from sequence_Inl_mem [OF C'(2)] obtain km' where km': "km' \<in> set kms" "?f C' km' = Inl e3"
    by force
  from sequence_Inl_mem [OF km'(2)] obtain tr te where
    t: "(tr, te) \<in> set folds" "get_pool nproc (try_params ext km' labels tr te C' sp) = Inl e3"
    by force
  from t(2) have "try_params ext km' labels tr te C' sp = Inl e3" by (simp add: get_pool_Inl)
  with C'(1) km'(1) t(1) e3 show ?thesis by blast
qed

text \<open>
  The score table is filled by the callbacks alone, and the results of the submitted tasks
  are not read anywhere else. With a pool that calls the callback of a task that returns
  and keeps the exception of a task that raises to itself, the cells of the failing tasks
  stay NaN, and the selection returns the pair of the first NaN mean: here \<open>C = 2\<close>, the
  candidate whose fits raise.
\<close>

lemma tune_params_callback_only_pool:
  "tune_params (failing_fit_ext\<lparr>ext_get_pool :=
        \<lambda>n task. case task of Inl e \<Rightarrow> Inr None | Inr v \<Rightarrow> Inr (Some v)\<rparr>)
      [0, 1] [[0, 2], [2, 0]] [0, 1] 2 None [1, 2] (PySeq [1]) False sp
     = Inr ((1, 2), PySeq [1])"
proof -
  let ?K = "[[1, exp (- 2)], [exp (- 2), 1 :: real]]"
  let ?x = "failing_fit_ext\<lparr>ext_get_pool :=
        \<lambda>n task. case task of Inl e \<Rightarrow> Inr None | Inr v \<Rightarrow> Inr (Some v)\<rparr>"
  have e: "ext_eigh ?x = hadamard_eigh"
    "ext_svc_fit ?x = (\<lambda>C sp km y. if C = 2 then Inl SolverError else Inr km)"
    "ext_svc_predict ?x = (\<lambda>clf km. replicate (length km) 0)"
    "ext_get_pool ?x = (\<lambda>n task. case task of Inl e \<Rightarrow> Inr None | Inr v \<Rightarrow> Inr (Some v))"
    by (simp_all add: failing_fit_ext_def demo_ext_def)
  have m: "make_km hadamard_eigh [[0, 2], [2, 0]] 1 = Inr ?K"
    using make_km_sym2 [of 1 2] by simp
  have t1: "try_params ?x ?K [0, 1] tr te 1 sp = Inr (accuracy (replicate (length te) 0) (take_idx [0, 1] te))"
    for tr te
    by (simp add: try_params_def split_beta e split_km_def ix_def)
  have t2: "try_params ?x ?K [0, 1] tr te 2 sp = Inl SolverError" for tr te
    by (simp add: try_params_def split_beta e)
  have a: "accuracy [0] (take_idx [0, 1] [0]) = 1" "accuracy [0] (take_idx [0, 1] [Suc 0]) = 0"
    by (simp_all add: accuracy_def take_idx_def)
  have f: "KFold (Suc (Suc 0)) 2 [0, Suc 0] = Inr [([Suc 0], [0]), ([0], [Suc 0])]"
    using KFold_2_2 by (simp add: numeral_2_eq_2)
  have n: "nanmean [Some 1, Some 0] = Some (1 / 2)" "nanmean [None, None] = None"
    by (simp_all add: nanmean_def)
  have am: "argmax [Some (1 / 2), None] = Inr 1"
    by (simp add: argmax_def first_index_def del: not_None_eq)
  show ?thesis
    unfolding tune_params_def
    by (simp add: Let_def is_square_def is_shape_def e(1,4) m f t1 t2 a n am)
qed

text \<open>
  C5. With the pool \<open>get_pool\<close>, a grid that is searched, kernels and folds that were built,
  and a task \<open>(C, km, fold)\<close> whose solver fit raises: \<^verbatim>\<open>tune_params\<close> raises, and what it
  raises is the exception of a task of the run (of the first one that fails). No pair is
  returned.
\<close>

theorem tune_params_task_failure_aborts:
  assumes pool: "ext_get_pool ext = get_pool"
    and grid: "\<not> (length Cvals \<le> 1 \<and> length (seq_values svals) \<le> 1)"
    and shape: "is_square divs" "length labels = length divs"
    and med: "scale \<longrightarrow> median (positive_entries divs) = Inr med"
    and sigmas: "sigmas = (if scale then map (\<lambda>s. s * med) (seq_values svals) else seq_values svals)"
    and kms: "sequence (map (make_km (ext_eigh ext) divs) sigmas) = Inr kms"
    and folds: "KFold (length divs) num_folds idxs = Inr folds"
    and task: "C \<in> set Cvals" "km \<in> set kms" "(train, test) \<in> set folds"
    and fails: "ext_svc_fit ext C sp (fst (split_km km train test)) (take_idx labels train) = Inl e"
  shows "\<exists>e'. tune_params ext idxs divs labels num_folds nproc Cvals svals scale sp = Inl e'
            \<and> (\<exists>C' \<in> set Cvals. \<exists>km' \<in> set kms. \<exists>(tr, te) \<in> set folds.
                  try_params ext km' labels tr te C' sp = Inl e')"
proof -
  have t: "try_params ext km labels train test C sp = Inl e"
    using fails by (rule try_params_fit_raises)
  obtain e' where e':
    "sequence (map (\<lambda>C. sequence (map (\<lambda>km. sequence (map (\<lambda>(train, test).
        get_pool nproc (try_params ext km labels train test C sp)) folds)) kms)) Cvals) = Inl e'"
    "\<exists>C' \<in> set Cvals. \<exists>km' \<in> set kms. \<exists>(tr, te) \<in> set folds.
        try_params ext km' labels tr te C' sp = Inl e'"
    using pool_tasks_abort [OF task t, of nproc] by blast
  have g: "\<not> (length Cvals \<le> 1 \<and> length sigmas \<le> 1)"
    using grid sigmas by simp
  have pre: "(if scale
               then (case median (positive_entries divs) of
                       Inl e \<Rightarrow> Inl e
                     | Inr med \<Rightarrow> Inr (map (\<lambda>s. s * med) (seq_values svals)))
               else Inr (seq_values svals)) = Inr sigmas"
    using med sigmas by (cases scale) simp_all
  have "tune_params ext idxs divs labels num_folds nproc Cvals svals scale sp = Inl e'"
    by (simp only: tune_params_def pre sum.case Let_def g if_False shape simp_thms kms folds
        pool e'(1))
  then show ?thesis using e'(2) by blast
qed

theorem tune_params_task_failure_aborts_witness:
  "tune_params failing_fit_ext [0, 1] [[0, 2], [2, 0]] [0, 1] 2 None [1, 2] (PySeq [1]) False
      (tuning_svm_params demo_opts) = Inl SolverError"
proof -
  let ?K = "[[1, exp (- 2)], [exp (- 2), 1 :: real]]"
  have e: "ext_get_pool failing_fit_ext = get_pool" "ext_eigh failing_fit_ext = hadamard_eigh"
    "ext_svc_fit failing_fit_ext = (\<lambda>C sp km y. if C = 2 then Inl SolverError else Inr km)"
    by (simp_all add: failing_fit_ext_def demo_ext_def)
  have m: "make_km hadamard_eigh [[0, 2], [2, 0]] 1 = Inr ?K"
    using make_km_sym2 [of 1 2] by simp
  have k: "sequence (map (make_km (ext_eigh failing_fit_ext) [[0, 2], [2, 0]]) [1]) = Inr [?K]"
    by (simp add: e m)
  have l: "length [[0, 2], [2, 0 :: real]] = 2" by simp
  have f: "KFold (length [[0, 2], [2, 0 :: real]]) 2 [0, 1] = Inr [([1], [0]), ([0], [1])]"
    unfolding l by (rule KFold_2_2)
  have only: "e' = SolverError"
    if "try_params failing_fit_ext km' [0, 1] tr te C' (tuning_svm_params demo_opts) = Inl e'"
    for km' tr te C' e'
    using that by (simp add: try_params_def split_beta e split: if_splits)
  have h2: "\<not> (length [1, 2 :: real] \<le> 1 \<and> length (seq_values (PySeq [1])) \<le> 1)" by simp
  have h3: "is_square [[0, 2], [2, 0]]" by (simp add: is_square_def is_shape_def)
  have h4: "length [0, 1 :: int] = length [[0, 2], [2, 0 :: real]]" by simp
  have h5: "False \<longrightarrow> median (positive_entries [[0, 2], [2, 0]]) = Inr 0" by simp
  have h6: "[1] = (if False then map (\<lambda>s. s * 0) (seq_values (PySeq [1]))
                  else seq_values (PySeq [1]))" by simp
  have h9: "(2 :: real) \<in> set [1, 2]" "?K \<in> set [?K]"
    "([1], [0]) \<in> set [([1], [0]), ([0], [1 :: nat])]" by simp_all
  have h12: "ext_svc_fit failing_fit_ext 2 (tuning_svm_params demo_opts)
               (fst (split_km ?K [1] [0])) (take_idx [0, 1] [1]) = Inl SolverError"
    by (simp add: e)
  obtain e' where r: "tune_params failing_fit_ext [0, 1] [[0, 2], [2, 0]] [0, 1] 2 None [1, 2]
        (PySeq [1]) False (tuning_svm_params demo_opts) = Inl e'"
      and s: "\<exists>C' \<in> set [1, 2]. \<exists>km' \<in> set [?K]. \<exists>(tr, te) \<in> set [([1], [0]), ([0], [1])].
        try_params failing_fit_ext km' [0, 1] tr te C' (tuning_svm_params demo_opts) = Inl e'"
    using tune_params_task_failure_aborts [where nproc = None and idxs = "[0, 1]",
        OF e(1) h2 h3 h4 h5 h6 k f h9 h12]
    by blast
  from s have "e' = SolverError" using only by blast
  with r show ?thesis by simp
qed

end
